theory Spec2Isabelle
  imports Complex_Main "HOL-Library.Multiset"
begin

section \<open>Data model (internal/domain)\<close>

text \<open>
  The three GORM models. Go's \<open>uint\<close> identifiers are natural numbers, the nullable
  \<open>*uint\<close> wallet references of a transaction are options, \<open>CreatedAt\<close> is the
  millisecond timestamp GORM fills in at insertion. Amounts and balances are
  \<open>float64\<close> in the source; they are modelled as exact reals, so rounding of binary
  floating point is outside this development.
\<close>

record User =
  User_ID :: nat
  User_Username :: string
  User_Password :: string
  User_Role :: string

record Wallet =
  Wallet_ID :: nat
  Wallet_UserID :: nat
  Wallet_Balance :: real

record Transaction =
  Transaction_ID :: nat
  Transaction_FromWalletID :: "nat option"
  Transaction_ToWalletID :: "nat option"
  Transaction_Amount :: real
  Transaction_Type :: string
  Transaction_CreatedAt :: int

section \<open>The ledger store (MySQL through GORM)\<close>

text \<open>
  A table is the list of its rows in insertion order. \<open>First\<close> is GORM's
  \<open>db.Where(...).First(&x)\<close>: of the rows that satisfy the condition, the one with the
  smallest primary key, or \<open>None\<close> for \<open>ErrRecordNotFound\<close>. \<open>auto_increment\<close> is the
  primary key given to an inserted row.
\<close>

record Store =
  users :: "User list"
  wallets :: "Wallet list"
  transactions :: "Transaction list"

definition First :: "('a \<Rightarrow> nat) \<Rightarrow> ('a \<Rightarrow> bool) \<Rightarrow> 'a list \<Rightarrow> 'a option" where
  "First pk cond rows =
     (case filter cond rows of
        [] \<Rightarrow> None
      | r # rs \<Rightarrow> Some (fold (\<lambda>x m. if pk x < pk m then x else m) rs r))"

definition auto_increment :: "nat list \<Rightarrow> nat" where
  "auto_increment ids = Suc (fold max ids 0)"

definition user_by_username :: "Store \<Rightarrow> string \<Rightarrow> User option" where
  "user_by_username st name = First User_ID (\<lambda>u. User_Username u = name) (users st)"

definition wallet_by_user_id :: "Store \<Rightarrow> nat \<Rightarrow> Wallet option" where
  "wallet_by_user_id st uid = First Wallet_ID (\<lambda>w. Wallet_UserID w = uid) (wallets st)"

text \<open>
  \<open>tx.Model(&wallet).Update("balance", gorm.Expr("balance + ?", a))\<close> is the statement
  \<open>UPDATE wallets SET balance = balance + a WHERE id = wallet.ID\<close>: the new balance is
  computed by the store from the balance the row has when the statement runs.
\<close>

definition update_balance :: "nat \<Rightarrow> (real \<Rightarrow> real) \<Rightarrow> Store \<Rightarrow> Store" where
  "update_balance wid f st =
     st\<lparr>wallets := map (\<lambda>w. if Wallet_ID w = wid
                             then w\<lparr>Wallet_Balance := f (Wallet_Balance w)\<rparr> else w)
                       (wallets st)\<rparr>"

definition create_transaction ::
  "nat option \<Rightarrow> nat option \<Rightarrow> real \<Rightarrow> string \<Rightarrow> int \<Rightarrow> Store \<Rightarrow> Store" where
  "create_transaction from_id to_id amount ty now st =
     st\<lparr>transactions := transactions st @
          [\<lparr>Transaction_ID = auto_increment (map Transaction_ID (transactions st)),
            Transaction_FromWalletID = from_id,
            Transaction_ToWalletID = to_id,
            Transaction_Amount = amount,
            Transaction_Type = ty,
            Transaction_CreatedAt = now\<rparr>]\<rparr>"

text \<open>
  Inserting a wallet: the unique index on \<open>user_id\<close> rejects a second wallet of the same
  user (\<open>None\<close>); otherwise the stored row, with its new primary key, is returned too.
\<close>

definition create_wallet :: "nat \<Rightarrow> Store \<Rightarrow> (Wallet \<times> Store) option" where
  "create_wallet uid st =
     (if uid \<in> set (map Wallet_UserID (wallets st)) then None
      else let w = \<lparr>Wallet_ID = auto_increment (map Wallet_ID (wallets st)),
                    Wallet_UserID = uid, Wallet_Balance = 0\<rparr>
           in Some (w, st\<lparr>wallets := wallets st @ [w]\<rparr>))"

text \<open>
  Inserting a user: the \<open>unique\<close> constraint on \<open>username\<close> rejects a name that is
  already stored, compared as the stored string; the role defaults to \<open>user\<close>.
\<close>

definition create_user :: "string \<Rightarrow> string \<Rightarrow> Store \<Rightarrow> Store option" where
  "create_user name hash st =
     (if name \<in> set (map User_Username (users st)) then None
      else Some (st\<lparr>users := users st @
                   [\<lparr>User_ID = auto_increment (map User_ID (users st)),
                     User_Username = name, User_Password = hash,
                     User_Role = ''user''\<rparr>]\<rparr>))"

definition history_rows :: "Store \<Rightarrow> nat \<Rightarrow> Transaction list" where
  "history_rows st wid =
     filter (\<lambda>t. Transaction_FromWalletID t = Some wid \<or> Transaction_ToWalletID t = Some wid)
            (transactions st)"

section \<open>strconv\<close>

definition digit_char :: "nat \<Rightarrow> char" where
  "digit_char d = char_of (48 + d)"

fun itoa_nat :: "nat \<Rightarrow> string" where
  "itoa_nat n = (if n < 10 then [digit_char n] else itoa_nat (n div 10) @ [digit_char (n mod 10)])"

declare itoa_nat.simps [simp del]

definition Itoa :: "int \<Rightarrow> string" where
  "Itoa i = (if i < 0 then CHR ''-'' # itoa_nat (nat (- i)) else itoa_nat (nat i))"

definition is_digit :: "char \<Rightarrow> bool" where
  "is_digit c = (48 \<le> (of_char c :: nat) \<and> (of_char c :: nat) \<le> 57)"

definition digits_value :: "string \<Rightarrow> nat" where
  "digits_value ds = foldl (\<lambda>a c. 10 * a + (of_char c - 48)) 0 ds"

text \<open>
  \<open>strconv.Atoi\<close>: an optional sign, then one or more decimal digits and nothing else;
  a value outside the 64-bit \<open>int\<close> is an error as well.
\<close>

definition Atoi :: "string \<Rightarrow> int option" where
  "Atoi s =
     (let neg = (s \<noteq> [] \<and> hd s = CHR ''-'');
          ds = (if s \<noteq> [] \<and> (hd s = CHR ''-'' \<or> hd s = CHR ''+'') then tl s else s);
          v = (if neg then - int (digits_value ds) else int (digits_value ds))
      in if ds \<noteq> [] \<and> list_all is_digit ds
         then (if v < - (2 ^ 63) \<or> 2 ^ 63 - 1 < v then None else Some v)
         else None)"

definition wrap_int64 :: "int \<Rightarrow> int" where
  "wrap_int64 x = (x + 2 ^ 63) mod 2 ^ 64 - 2 ^ 63"

section \<open>The cache layer (internal/utils over Redis)\<close>

text \<open>
  Redis is a map from keys to the JSON text stored under them. The handlers store two
  shapes of value: a wallet, and a page of the transaction history. Reading a value
  into a destination of the other shape leaves the destination at its zero value, as
  \<open>json.Unmarshal\<close> does for an object without the destination's fields. Redis is
  taken to answer every command; entries are not expired by the model.
\<close>

record HistoryPage =
  Page_Transactions :: "Transaction list"
  Page_Page :: int
  Page_PageSize :: int
  Page_Total :: int
  Page_TotalPages :: int

datatype cache_value = CachedWallet Wallet | CachedHistory HistoryPage

type_synonym Cache = "string \<Rightarrow> cache_value option"

definition GetCache :: "Cache \<Rightarrow> string \<Rightarrow> cache_value option" where
  "GetCache rdb key = rdb key"

definition SetCache :: "string \<Rightarrow> cache_value \<Rightarrow> Cache \<Rightarrow> Cache" where
  "SetCache key v rdb = rdb(key \<mapsto> v)"

definition DeleteCache :: "string \<Rightarrow> Cache \<Rightarrow> Cache" where
  "DeleteCache key rdb = rdb(key := None)"

definition unmarshal_wallet :: "cache_value \<Rightarrow> Wallet" where
  "unmarshal_wallet v =
     (case v of CachedWallet w \<Rightarrow> w
      | CachedHistory _ \<Rightarrow> \<lparr>Wallet_ID = 0, Wallet_UserID = 0, Wallet_Balance = 0\<rparr>)"

definition unmarshal_history :: "cache_value \<Rightarrow> HistoryPage" where
  "unmarshal_history v =
     (case v of CachedHistory h \<Rightarrow> h
      | CachedWallet _ \<Rightarrow> \<lparr>Page_Transactions = [], Page_Page = 0, Page_PageSize = 0,
                           Page_Total = 0, Page_TotalPages = 0\<rparr>)"

definition wallet_key :: "nat \<Rightarrow> string" where
  "wallet_key uid = ''wallet:user:'' @ Itoa (int uid)"

definition txhistory_key :: "nat \<Rightarrow> int \<Rightarrow> int \<Rightarrow> string" where
  "txhistory_key uid page page_size =
     ''txhistory:user:'' @ Itoa (int uid) @ '':page:'' @ Itoa page @ '':size:'' @ Itoa page_size"

section \<open>The handlers (internal/api)\<close>

text \<open>
  A handler takes the state of the store and of the cache, the user identifier the
  JWT middleware put into the request context (\<open>None\<close> when it is absent), the
  request, and for a handler that inserts a transaction the clock reading GORM stores
  as \<open>created_at\<close>; it returns the response with the state it leaves. The store
  executes every statement it is sent, so the responses 500 that follow a failed
  statement are reached only where a constraint of the schema rejects an insertion.
\<close>

record State =
  db :: Store
  rdb :: Cache

text \<open>
  A response is the status code with the JSON body the handler writes: an \<open>error\<close>
  body, a \<open>message\<close> body, the created wallet, a wallet with its \<open>cached\<close> flag, or a
  history page with its \<open>cached\<close> flag.
\<close>

datatype response =
    ErrorResp nat string
  | MessageResp nat string
  | WalletCreatedResp nat string Wallet
  | WalletResp nat Wallet bool
  | HistoryResp nat HistoryPage bool

record TransferRequest =
  ToUsername :: string
  Amount :: real

text \<open>
  \<open>ShouldBindJSON\<close> with the tags \<open>required\<close> and \<open>gt=0\<close>: a body that is not a
  request (\<open>None\<close>), an empty user name or an amount that is not above zero fails.
\<close>

definition bind_transfer :: "TransferRequest option \<Rightarrow> TransferRequest option" where
  "bind_transfer body =
     (case body of None \<Rightarrow> None
      | Some req \<Rightarrow> if ToUsername req = [] \<or> Amount req \<le> 0 then None else Some req)"

definition bind_deposit :: "real option \<Rightarrow> real option" where
  "bind_deposit body =
     (case body of None \<Rightarrow> None
      | Some amount \<Rightarrow> if amount \<le> 0 then None else Some amount)"

text \<open>The first five history pages of size 20 of a user, as both invalidation loops name them.\<close>

definition invalidate_history :: "nat \<Rightarrow> Cache \<Rightarrow> Cache" where
  "invalidate_history uid c =
     fold (\<lambda>i. DeleteCache (txhistory_key uid i 20)) [1, 2, 3, 4, 5] c"

subsection \<open>TransferHandler\<close>

text \<open>
  Lines 27 to 72 only read: they end in a response, or in the target user and the two
  wallets as they were read. Lines 74 to 134 are the store transaction, written with
  the identifiers read before, followed by the cache invalidation.
\<close>

definition transfer_check ::
  "State \<Rightarrow> nat option \<Rightarrow> TransferRequest option \<Rightarrow> response + (TransferRequest \<times> nat \<times> User \<times> Wallet \<times> Wallet)" where
  "transfer_check s ctx_user body =
     (case ctx_user of None \<Rightarrow> Inl (ErrorResp 401 ''Unauthorized'')
      | Some fromUserID \<Rightarrow>
     (case bind_transfer body of None \<Rightarrow> Inl (ErrorResp 400 ''Invalid request'')
      | Some req \<Rightarrow>
     if Amount req \<le> 0 then Inl (ErrorResp 400 ''Invalid request'') else
     (case user_by_username (db s) (ToUsername req) of
        None \<Rightarrow> Inl (ErrorResp 404 ''Target user not found'')
      | Some toUser \<Rightarrow>
     if User_ID toUser = fromUserID then Inl (ErrorResp 400 ''Cannot transfer to yourself'') else
     (case wallet_by_user_id (db s) fromUserID of
        None \<Rightarrow> Inl (ErrorResp 404 ''Sender wallet not found'')
      | Some fromWallet \<Rightarrow>
     (case wallet_by_user_id (db s) (User_ID toUser) of
        None \<Rightarrow> Inl (ErrorResp 404 ''Recipient wallet not found'')
      | Some toWallet \<Rightarrow>
     if Wallet_Balance fromWallet < Amount req then Inl (ErrorResp 400 ''Insufficient funds'')
     else Inr (req, fromUserID, toUser, fromWallet, toWallet))))))"

definition transfer_commit ::
  "State \<Rightarrow> int \<Rightarrow> TransferRequest \<times> nat \<times> User \<times> Wallet \<times> Wallet \<Rightarrow> response \<times> State" where
  "transfer_commit s now checked =
     (case checked of (req, fromUserID, toUser, fromWallet, toWallet) \<Rightarrow>
        let st1 = update_balance (Wallet_ID fromWallet) (\<lambda>b. b - Amount req) (db s);
            st2 = update_balance (Wallet_ID toWallet) (\<lambda>b. b + Amount req) st1;
            st3 = create_transaction (Some (Wallet_ID fromWallet)) (Some (Wallet_ID toWallet))
                    (Amount req) ''transfer'' now st2;
            c1 = DeleteCache (wallet_key fromUserID) (rdb s);
            c2 = DeleteCache (wallet_key (User_ID toUser)) c1;
            c3 = fold (\<lambda>i c. DeleteCache (txhistory_key (User_ID toUser) i 20)
                               (DeleteCache (txhistory_key fromUserID i 20) c))
                      [1, 2, 3, 4, 5] c2
        in (MessageResp 200 ''Transfer successful'', \<lparr>db = st3, rdb = c3\<rparr>))"

definition TransferHandler ::
  "State \<Rightarrow> nat option \<Rightarrow> TransferRequest option \<Rightarrow> int \<Rightarrow> response \<times> State" where
  "TransferHandler s ctx_user body now =
     (case transfer_check s ctx_user body of
        Inl resp \<Rightarrow> (resp, s)
      | Inr checked \<Rightarrow> transfer_commit s now checked)"

subsection \<open>DepositHandler\<close>

definition DepositHandler ::
  "State \<Rightarrow> nat option \<Rightarrow> real option \<Rightarrow> int \<Rightarrow> response \<times> State" where
  "DepositHandler s ctx_user body now =
     (case ctx_user of None \<Rightarrow> (ErrorResp 401 ''Unauthorized'', s)
      | Some userID \<Rightarrow>
     (case bind_deposit body of None \<Rightarrow> (ErrorResp 400 ''Invalid amount'', s)
      | Some amount \<Rightarrow>
     if amount \<le> 0 then (ErrorResp 400 ''Invalid amount'', s) else
     (case wallet_by_user_id (db s) userID of
        None \<Rightarrow> (ErrorResp 404 ''Wallet not found'', s)
      | Some wallet \<Rightarrow>
        let st1 = update_balance (Wallet_ID wallet) (\<lambda>b. b + amount) (db s);
            st2 = create_transaction None (Some (Wallet_ID wallet)) amount ''deposit'' now st1;
            c1 = DeleteCache (wallet_key userID) (rdb s);
            c2 = invalidate_history userID c1
        in (MessageResp 200 ''Deposit successful'', \<lparr>db = st2, rdb = c2\<rparr>))))"

subsection \<open>CreateWalletHandler\<close>

definition CreateWalletHandler :: "State \<Rightarrow> nat option \<Rightarrow> response \<times> State" where
  "CreateWalletHandler s ctx_user =
     (case ctx_user of None \<Rightarrow> (ErrorResp 401 ''Unauthorized'', s)
      | Some userID \<Rightarrow>
     (case wallet_by_user_id (db s) userID of
        Some _ \<Rightarrow> (ErrorResp 400 ''Wallet already exists'', s)
      | None \<Rightarrow>
     (case create_wallet userID (db s) of
        None \<Rightarrow> (ErrorResp 500 ''Failed to create wallet'', s)
      | Some (wallet, st1) \<Rightarrow>
          (WalletCreatedResp 201 ''Wallet created'' wallet,
           \<lparr>db = st1, rdb = DeleteCache (wallet_key userID) (rdb s)\<rparr>))))"

subsection \<open>GetWalletHandler\<close>

definition GetWalletHandler :: "State \<Rightarrow> nat option \<Rightarrow> response \<times> State" where
  "GetWalletHandler s ctx_user =
     (case ctx_user of None \<Rightarrow> (ErrorResp 401 ''Unauthorized'', s)
      | Some userID \<Rightarrow>
     (case GetCache (rdb s) (wallet_key userID) of
        Some v \<Rightarrow> (WalletResp 200 (unmarshal_wallet v) True, s)
      | None \<Rightarrow>
     (case wallet_by_user_id (db s) userID of
        None \<Rightarrow> (ErrorResp 404 ''Wallet not found'', s)
      | Some wallet \<Rightarrow>
          (WalletResp 200 wallet False,
           s\<lparr>rdb := SetCache (wallet_key userID) (CachedWallet wallet) (rdb s)\<rparr>))))"

subsection \<open>GetTransactionHistoryHandler\<close>

text \<open>
  The query parameters arrive as strings, empty when absent. A page that does not
  parse to a positive integer stays 1; a page size that does not parse to an integer
  in 1..100 stays 20.
\<close>

definition parse_page :: "string \<Rightarrow> int" where
  "parse_page p =
     (if p \<noteq> [] then (case Atoi p of Some v \<Rightarrow> if v > 0 then v else 1 | None \<Rightarrow> 1) else 1)"

definition parse_page_size :: "string \<Rightarrow> int" where
  "parse_page_size ps =
     (if ps \<noteq> []
      then (case Atoi ps of Some v \<Rightarrow> if v > 0 \<and> v \<le> 100 then v else 20 | None \<Rightarrow> 20)
      else 20)"

text \<open>
  The query asks the store for \<open>ORDER BY created_at desc\<close> and nothing more. Which of
  the orders that satisfy it the store returns is the store's choice, so the order is
  an argument of the handler: \<open>order_by\<close> maps the matching rows to the sequence the
  store produces, and \<open>order_by_created_at_desc\<close> says when such a sequence answers
  the query. \<open>Offset\<close> is skipped by GORM unless it is positive.
\<close>

definition created_at_desc :: "Transaction list \<Rightarrow> bool" where
  "created_at_desc ts =
     sorted_wrt (\<lambda>a b. Transaction_CreatedAt b \<le> Transaction_CreatedAt a) ts"

definition order_by_created_at_desc :: "Transaction list \<Rightarrow> Transaction list \<Rightarrow> bool" where
  "order_by_created_at_desc rows result = (mset result = mset rows \<and> created_at_desc result)"

definition GetTransactionHistoryHandler ::
  "(Transaction list \<Rightarrow> Transaction list) \<Rightarrow> State \<Rightarrow> nat option \<Rightarrow> string \<Rightarrow> string
     \<Rightarrow> response \<times> State" where
  "GetTransactionHistoryHandler order_by s ctx_user p ps =
     (case ctx_user of None \<Rightarrow> (ErrorResp 401 ''Unauthorized'', s)
      | Some userID \<Rightarrow>
     (case wallet_by_user_id (db s) userID of
        None \<Rightarrow> (ErrorResp 404 ''Wallet not found'', s)
      | Some wallet \<Rightarrow>
        let page = parse_page p;
            pageSize = parse_page_size ps;
            offset = wrap_int64 ((page - 1) * pageSize);
            cacheKey = txhistory_key userID page pageSize
        in (case GetCache (rdb s) cacheKey of
              Some v \<Rightarrow> (HistoryResp 200 (unmarshal_history v) True, s)
            | None \<Rightarrow>
              let total = int (length (history_rows (db s) (Wallet_ID wallet)));
                  txs = take (nat pageSize)
                         (drop (nat offset) (order_by (history_rows (db s) (Wallet_ID wallet))));
                  totalPages = (total + pageSize - 1) div pageSize;
                  resp = \<lparr>Page_Transactions = txs, Page_Page = page, Page_PageSize = pageSize,
                          Page_Total = total, Page_TotalPages = totalPages\<rparr>
              in (HistoryResp 200 resp False,
                  s\<lparr>rdb := SetCache cacheKey (CachedHistory resp) (rdb s)\<rparr>))))"

subsection \<open>RegisterHandler\<close>

record RegisterRequest =
  Username :: string
  Password :: string

definition bind_register :: "RegisterRequest option \<Rightarrow> RegisterRequest option" where
  "bind_register body =
     (case body of None \<Rightarrow> None
      | Some req \<Rightarrow> if Username req = [] \<or> Password req = [] then None else Some req)"

definition is_upper :: "char \<Rightarrow> bool" where
  "is_upper c = (65 \<le> (of_char c :: nat) \<and> (of_char c :: nat) \<le> 90)"

definition is_lower :: "char \<Rightarrow> bool" where
  "is_lower c = (97 \<le> (of_char c :: nat) \<and> (of_char c :: nat) \<le> 122)"

definition isValidUsername :: "string \<Rightarrow> bool" where
  "isValidUsername username = (username \<noteq> [] \<and> list_all (\<lambda>c. is_upper c \<or> is_lower c) username)"

definition isValidPassword :: "string \<Rightarrow> bool" where
  "isValidPassword password = (8 \<le> length password \<and> length password \<le> 15)"

text \<open>
  \<open>strings.ToLower\<close> on the letters A to Z; the handler applies it to names that
  \<open>isValidUsername\<close> has accepted, which hold no other letters.
\<close>

definition to_lower_char :: "char \<Rightarrow> char" where
  "to_lower_char c = (if is_upper c then char_of ((of_char c :: nat) + 32) else c)"

definition ToLower :: "string \<Rightarrow> string" where
  "ToLower s = map to_lower_char s"

text \<open>The result of \<open>bcrypt.GenerateFromPassword\<close> is an argument: the hash, or \<open>None\<close>.\<close>

definition RegisterHandler ::
  "State \<Rightarrow> RegisterRequest option \<Rightarrow> string option \<Rightarrow> response \<times> State" where
  "RegisterHandler s body hash =
     (case bind_register body of None \<Rightarrow> (ErrorResp 400 ''Invalid request'', s)
      | Some req \<Rightarrow>
     if \<not> isValidUsername (Username req)
     then (ErrorResp 400 ''Username must be alphabetic only'', s)
     else if \<not> isValidPassword (Password req)
     then (ErrorResp 400 ''Password must be 8-15 characters'', s)
     else
     (case hash of None \<Rightarrow> (ErrorResp 500 ''Failed to hash password'', s)
      | Some h \<Rightarrow>
     (case create_user (ToLower (Username req)) h (db s) of
        None \<Rightarrow> (ErrorResp 400 ''Username already exists'', s)
      | Some st1 \<Rightarrow> (MessageResp 201 ''User registered successfully'', s\<lparr>db := st1\<rparr>))))"

subsection \<open>The comparison of user names\<close>

text \<open>
  The target of a transfer is found by the statement \<open>WHERE username = ?\<close>, and what
  \<open>=\<close> means for two strings is the collation of the column. Neither the data source
  name in \<open>main.go\<close> nor the \<open>gorm\<close> tag of \<open>Username\<close> names one, so it is whatever
  the database was set up with. The lookup and the read phase of the transfer are
  given again with the comparison as an argument \<open>coll\<close>, which takes the stored name
  and the requested one; \<open>user_by_username\<close> and \<open>transfer_check\<close> above are the
  instances at the equality of strings, a binary collation. \<open>ci_equal\<close> is the
  comparison of a collation that ignores the case of the letters A to Z, as the
  default collations of MySQL do.
\<close>

definition user_by_username_collated ::
  "(string \<Rightarrow> string \<Rightarrow> bool) \<Rightarrow> Store \<Rightarrow> string \<Rightarrow> User option" where
  "user_by_username_collated coll st name =
     First User_ID (\<lambda>u. coll (User_Username u) name) (users st)"

definition transfer_check_collated ::
  "(string \<Rightarrow> string \<Rightarrow> bool) \<Rightarrow> State \<Rightarrow> nat option \<Rightarrow> TransferRequest option
     \<Rightarrow> response + (TransferRequest \<times> nat \<times> User \<times> Wallet \<times> Wallet)" where
  "transfer_check_collated coll s ctx_user body =
     (case ctx_user of None \<Rightarrow> Inl (ErrorResp 401 ''Unauthorized'')
      | Some fromUserID \<Rightarrow>
     (case bind_transfer body of None \<Rightarrow> Inl (ErrorResp 400 ''Invalid request'')
      | Some req \<Rightarrow>
     if Amount req \<le> 0 then Inl (ErrorResp 400 ''Invalid request'') else
     (case user_by_username_collated coll (db s) (ToUsername req) of
        None \<Rightarrow> Inl (ErrorResp 404 ''Target user not found'')
      | Some toUser \<Rightarrow>
     if User_ID toUser = fromUserID then Inl (ErrorResp 400 ''Cannot transfer to yourself'') else
     (case wallet_by_user_id (db s) fromUserID of
        None \<Rightarrow> Inl (ErrorResp 404 ''Sender wallet not found'')
      | Some fromWallet \<Rightarrow>
     (case wallet_by_user_id (db s) (User_ID toUser) of
        None \<Rightarrow> Inl (ErrorResp 404 ''Recipient wallet not found'')
      | Some toWallet \<Rightarrow>
     if Wallet_Balance fromWallet < Amount req then Inl (ErrorResp 400 ''Insufficient funds'')
     else Inr (req, fromUserID, toUser, fromWallet, toWallet))))))"

definition TransferHandler_collated ::
  "(string \<Rightarrow> string \<Rightarrow> bool) \<Rightarrow> State \<Rightarrow> nat option \<Rightarrow> TransferRequest option \<Rightarrow> int
     \<Rightarrow> response \<times> State" where
  "TransferHandler_collated coll s ctx_user body now =
     (case transfer_check_collated coll s ctx_user body of
        Inl resp \<Rightarrow> (resp, s)
      | Inr checked \<Rightarrow> transfer_commit s now checked)"

definition ci_equal :: "string \<Rightarrow> string \<Rightarrow> bool" where
  "ci_equal stored requested = (ToLower stored = ToLower requested)"

section \<open>Sequential executions\<close>

datatype operation =
    Register "RegisterRequest option" "string option"
  | CreateAccount "nat option"
  | Deposit "nat option" "real option" int
  | Transfer "nat option" "TransferRequest option" int
  | GetBalance "nat option"
  | GetHistory "Transaction list \<Rightarrow> Transaction list" "nat option" string string

fun perform :: "State \<Rightarrow> operation \<Rightarrow> response \<times> State" where
  "perform s (Register body hash) = RegisterHandler s body hash"
| "perform s (CreateAccount u) = CreateWalletHandler s u"
| "perform s (Deposit u body now) = DepositHandler s u body now"
| "perform s (Transfer u body now) = TransferHandler s u body now"
| "perform s (GetBalance u) = GetWalletHandler s u"
| "perform s (GetHistory order_by u p ps) = GetTransactionHistoryHandler order_by s u p ps"

fun run :: "State \<Rightarrow> operation list \<Rightarrow> response list \<times> State" where
  "run s [] = ([], s)"
| "run s (x # xs) =
     (case perform s x of (r, s1) \<Rightarrow> (case run s1 xs of (rs, s2) \<Rightarrow> (r # rs, s2)))"

section \<open>Concurrent transfers\<close>

text \<open>
  Each request is served by its own goroutine and the handler holds no lock, so
  between the reads of one transfer and its store transaction another request may
  run. A transfer in flight has arrived, has passed its checks and holds what it
  read, or has responded; a schedule names which request takes its next step.
\<close>

datatype transfer_thread =
    Arrived "nat option" "TransferRequest option" int
  | Checked int "TransferRequest \<times> nat \<times> User \<times> Wallet \<times> Wallet"
  | Responded response

fun thread_step :: "State \<Rightarrow> transfer_thread \<Rightarrow> State \<times> transfer_thread" where
  "thread_step s (Arrived u body now) =
     (case transfer_check s u body of
        Inl resp \<Rightarrow> (s, Responded resp)
      | Inr checked \<Rightarrow> (s, Checked now checked))"
| "thread_step s (Checked now checked) =
     (case transfer_commit s now checked of (resp, s1) \<Rightarrow> (s1, Responded resp))"
| "thread_step s (Responded resp) = (s, Responded resp)"

fun interleave :: "nat list \<Rightarrow> State \<times> transfer_thread list \<Rightarrow> State \<times> transfer_thread list" where
  "interleave [] cfg = cfg"
| "interleave (i # sched) (s, ts) =
     (if i < length ts
      then (case thread_step s (ts ! i) of (s1, t1) \<Rightarrow> interleave sched (s1, ts[i := t1]))
      else interleave sched (s, ts))"

section \<open>Example states\<close>

definition empty_state :: State where
  "empty_state = \<lparr>db = \<lparr>users = [], wallets = [], transactions = []\<rparr>, rdb = Map.empty\<rparr>"

definition alice :: User where
  "alice = \<lparr>User_ID = 1, User_Username = ''alice'', User_Password = ''h1'', User_Role = ''user''\<rparr>"

definition bob :: User where
  "bob = \<lparr>User_ID = 2, User_Username = ''bob'', User_Password = ''h2'', User_Role = ''user''\<rparr>"

definition two_wallets :: "real \<Rightarrow> real \<Rightarrow> State" where
  "two_wallets a b =
     \<lparr>db = \<lparr>users = [alice, bob],
            wallets = [\<lparr>Wallet_ID = 1, Wallet_UserID = 1, Wallet_Balance = a\<rparr>,
                       \<lparr>Wallet_ID = 2, Wallet_UserID = 2, Wallet_Balance = b\<rparr>],
            transactions = []\<rparr>,
      rdb = Map.empty\<rparr>"

section \<open>Observations and invariants\<close>

fun status :: "response \<Rightarrow> nat" where
  "status (ErrorResp c _) = c"
| "status (MessageResp c _) = c"
| "status (WalletCreatedResp c _ _) = c"
| "status (WalletResp c _ _) = c"
| "status (HistoryResp c _ _) = c"


fun response_page :: "response \<Rightarrow> HistoryPage option" where
  "response_page (HistoryResp _ h _) = Some h"
| "response_page _ = None"

definition balances_nonneg :: "Store \<Rightarrow> bool" where
  "balances_nonneg st = list_all (\<lambda>w. 0 \<le> Wallet_Balance w) (wallets st)"

text \<open>The primary key of the wallets table.\<close>

definition wallet_ids_distinct :: "Store \<Rightarrow> bool" where
  "wallet_ids_distinct st = distinct (map Wallet_ID (wallets st))"

text \<open>Every stored user name is in lower case, which is how registration stores it.\<close>

definition usernames_lowercase :: "Store \<Rightarrow> bool" where
  "usernames_lowercase st = list_all (\<lambda>u. ToLower (User_Username u) = User_Username u) (users st)"

text \<open>
  What both invalidation loops leave behind for a user: no cached wallet, and no
  cached history page of size 20 among the pages 1 to 5.
\<close>

definition invalidated :: "Cache \<Rightarrow> nat \<Rightarrow> bool" where
  "invalidated c uid =
     (c (wallet_key uid) = None \<and>
      list_all (\<lambda>i. c (txhistory_key uid i 20) = None) [1, 2, 3, 4, 5])"

text \<open>The cache after the invalidation at the end of a transfer from \<open>a\<close> to \<open>b\<close>.\<close>

definition transfer_cache :: "nat \<Rightarrow> nat \<Rightarrow> Cache \<Rightarrow> Cache" where
  "transfer_cache a b c =
     fold (\<lambda>i c. DeleteCache (txhistory_key b i 20) (DeleteCache (txhistory_key a i 20) c))
       [1, 2, 3, 4, 5] (DeleteCache (wallet_key b) (DeleteCache (wallet_key a) c))"

text \<open>The page count the specification names: the total over the page size, rounded up.\<close>

definition pages_needed :: "int \<Rightarrow> int \<Rightarrow> int" where
  "pages_needed n page_size = \<lceil>real_of_int n / real_of_int page_size\<rceil>"

text \<open>
  Descending creation time with ties broken by the identifier, in either direction:
  the two orders a tie-break by entry identifier could mean.
\<close>

definition created_at_desc_id_asc :: "Transaction list \<Rightarrow> bool" where
  "created_at_desc_id_asc ts =
     sorted_wrt (\<lambda>a b. Transaction_CreatedAt b < Transaction_CreatedAt a \<or>
                        (Transaction_CreatedAt b = Transaction_CreatedAt a \<and>
                         Transaction_ID a < Transaction_ID b)) ts"

definition created_at_desc_id_desc :: "Transaction list \<Rightarrow> bool" where
  "created_at_desc_id_desc ts =
     sorted_wrt (\<lambda>a b. Transaction_CreatedAt b < Transaction_CreatedAt a \<or>
                        (Transaction_CreatedAt b = Transaction_CreatedAt a \<and>
                         Transaction_ID b < Transaction_ID a)) ts"

definition page_entries :: "response \<Rightarrow> Transaction list" where
  "page_entries r = (case response_page r of None \<Rightarrow> [] | Some h \<Rightarrow> Page_Transactions h)"

text \<open>Two deposits into the first wallet of \<open>two_wallets 0 0\<close>, made at the given times.\<close>

definition two_deposits :: "int \<Rightarrow> int \<Rightarrow> State" where
  "two_deposits t1 t2 =
     snd (run (two_wallets 0 0) [Deposit (Some 1) (Some 10) t1, Deposit (Some 1) (Some 20) t2])"

text \<open>Two requests to move 60 from the first wallet to the second arrive together.\<close>

definition two_transfers_of_60 :: "transfer_thread list" where
  "two_transfers_of_60 =
     [Arrived (Some 1) (Some \<lparr>ToUsername = ''bob'', Amount = 60\<rparr>) 7,
      Arrived (Some 1) (Some \<lparr>ToUsername = ''bob'', Amount = 60\<rparr>) 8]"

text \<open>
  The first wallet holds 50; a third user registers as \<open>Carol\<close> and creates a wallet.
\<close>

definition carol_registered :: State where
  "carol_registered =
     snd (run (two_wallets 50 0)
       [Register (Some \<lparr>Username = ''Carol'', Password = ''password1''\<rparr>) (Some ''h3''),
        CreateAccount (Some 3)])"

definition store_ok :: "Store \<Rightarrow> bool" where
  "store_ok st = (balances_nonneg st \<and> wallet_ids_distinct st)"

section \<open>Facts about the store\<close>

lemma fold_least_mem:
  "fold (\<lambda>x m. if pk x < pk m then x else m) rs r \<in> set (r # rs)"
  by (induction rs arbitrary: r) auto

lemma First_SomeD:
  assumes "First pk cond rows = Some r"
  shows "r \<in> set rows \<and> cond r"
proof (cases "filter cond rows")
  case Nil
  with assms show ?thesis by (simp add: First_def)
next
  case (Cons a as)
  with assms have "r = fold (\<lambda>x m. if pk x < pk m then x else m) as a"
    by (simp add: First_def)
  then have "r \<in> set (a # as)" using fold_least_mem [of pk as a] by simp
  then have "r \<in> set (filter cond rows)" using Cons by simp
  then show ?thesis by simp
qed

lemma First_None_iff: "First pk cond rows = None \<longleftrightarrow> filter cond rows = []"
  by (simp add: First_def split: list.splits)

lemma fold_least_map:
  assumes "\<And>x. pk (f x) = pk x"
  shows "fold (\<lambda>x m. if pk x < pk m then x else m) (map f rs) (f r) =
         f (fold (\<lambda>x m. if pk x < pk m then x else m) rs r)"
  by (induction rs arbitrary: r) (simp_all add: assms)

lemma First_map:
  assumes pk: "\<And>x. pk (f x) = pk x" and cond: "\<And>x. cond (f x) = cond x"
  shows "First pk cond (map f rows) = map_option f (First pk cond rows)"
proof -
  have "filter cond (map f rows) = map f (filter cond rows)"
    by (simp add: filter_map comp_def cond)
  then show ?thesis
    by (cases "filter cond rows") (simp_all add: First_def fold_least_map [of pk f, OF pk])
qed

lemma wallet_by_user_id_update_balance:
  "wallet_by_user_id (update_balance wid g st) uid =
     map_option (\<lambda>w. if Wallet_ID w = wid then w\<lparr>Wallet_Balance := g (Wallet_Balance w)\<rparr> else w)
       (wallet_by_user_id st uid)"
  unfolding wallet_by_user_id_def update_balance_def
  by (simp add: First_map)

lemma wallet_by_user_id_create_transaction:
  "wallet_by_user_id (create_transaction a b c d e st) uid = wallet_by_user_id st uid"
  by (simp add: wallet_by_user_id_def create_transaction_def)

lemma user_by_username_update_balance:
  "user_by_username (update_balance wid g st) name = user_by_username st name"
  by (simp add: user_by_username_def update_balance_def)

lemma user_by_username_create_transaction:
  "user_by_username (create_transaction a b c d e st) name = user_by_username st name"
  by (simp add: user_by_username_def create_transaction_def)

lemma wallets_create_transaction: "wallets (create_transaction a b c d e st) = wallets st"
  by (simp add: create_transaction_def)

lemma two_wallets_lookup:
  "wallet_by_user_id (db (two_wallets x y)) 1 =
     Some \<lparr>Wallet_ID = 1, Wallet_UserID = 1, Wallet_Balance = x\<rparr>"
  "wallet_by_user_id (db (two_wallets x y)) 2 =
     Some \<lparr>Wallet_ID = 2, Wallet_UserID = 2, Wallet_Balance = y\<rparr>"
  "user_by_username (db (two_wallets x y)) ''bob'' = Some bob"
  "user_by_username (db (two_wallets x y)) ''alice'' = Some alice"
  by (simp_all add: two_wallets_def wallet_by_user_id_def user_by_username_def First_def
        alice_def bob_def)

text \<open>
  The example store is the one the handlers build from the empty state when two users
  register and each creates a wallet.
\<close>

lemma two_wallets_reachable:
  "db (snd (run empty_state
     [Register (Some \<lparr>Username = ''Alice'', Password = ''password1''\<rparr>) (Some ''h1''),
      Register (Some \<lparr>Username = ''bob'', Password = ''password2''\<rparr>) (Some ''h2''),
      CreateAccount (Some 1), CreateAccount (Some 2)])) = db (two_wallets 0 0)"
  by code_simp

section \<open>Insufficient funds\<close>

text \<open>
  C3. A transfer from the authenticated user \<open>a\<close>, who owns a wallet, to the user named
  \<open>name\<close>, who is another user and owns a wallet, of a positive amount above the
  balance of \<open>a\<close>'s wallet is answered with 400 \<open>Insufficient funds\<close>, and the state after
  the call is the state before it: both balances, the transaction table and the cache
  are untouched.
\<close>

theorem transfer_insufficient_funds:
  assumes "wallet_by_user_id (db s) a = Some fw"
    and "user_by_username (db s) name = Some u"
    and "User_ID u \<noteq> a"
    and "wallet_by_user_id (db s) (User_ID u) = Some tw"
    and "name \<noteq> []"
    and "0 < amount"
    and "Wallet_Balance fw < amount"
  shows "TransferHandler s (Some a) (Some \<lparr>ToUsername = name, Amount = amount\<rparr>) now =
           (ErrorResp 400 ''Insufficient funds'', s)"
  using assms by (simp add: TransferHandler_def transfer_check_def bind_transfer_def)

theorem transfer_insufficient_funds_witness:
  "wallet_by_user_id (db (two_wallets 50 0)) 1 =
     Some \<lparr>Wallet_ID = 1, Wallet_UserID = 1, Wallet_Balance = 50\<rparr> \<and>
   TransferHandler (two_wallets 50 0) (Some 1) (Some \<lparr>ToUsername = ''bob'', Amount = 60\<rparr>) 7 =
     (ErrorResp 400 ''Insufficient funds'', two_wallets 50 0)"
proof -
  have h1: "wallet_by_user_id (db (two_wallets 50 0)) 1 =
              Some \<lparr>Wallet_ID = 1, Wallet_UserID = 1, Wallet_Balance = 50\<rparr>"
    by (rule two_wallets_lookup)
  have h2: "user_by_username (db (two_wallets 50 0)) ''bob'' = Some bob"
    by (rule two_wallets_lookup)
  have h3: "User_ID bob \<noteq> 1" by (simp add: bob_def)
  have h4: "wallet_by_user_id (db (two_wallets 50 0)) (User_ID bob) =
              Some \<lparr>Wallet_ID = 2, Wallet_UserID = 2, Wallet_Balance = 0\<rparr>"
    by (simp add: bob_def two_wallets_lookup)
  have h5: "''bob'' \<noteq> []" by simp
  have h6: "(0::real) < 60" by simp
  have h7: "Wallet_Balance \<lparr>Wallet_ID = 1, Wallet_UserID = 1, Wallet_Balance = 50\<rparr> < 60"
    by simp
  from h1 transfer_insufficient_funds [OF h1 h2 h3 h4 h5 h6 h7, of 7] show ?thesis by simp
qed

section \<open>Page size\<close>

lemma Atoi_Nil: "Atoi [] = None"
  by (simp add: Atoi_def)

lemma parse_page_size_cases:
  "parse_page_size ps =
     (case Atoi ps of Some v \<Rightarrow> if 0 < v \<and> v \<le> 100 then v else 20 | None \<Rightarrow> 20)"
  by (cases ps) (simp_all add: parse_page_size_def Atoi_Nil)

lemma parse_page_size_bounds: "1 \<le> parse_page_size ps \<and> parse_page_size ps \<le> 100"
  by (simp add: parse_page_size_cases split: option.splits)

text \<open>
  C7, as the code has it. The effective page size lies in 1..100 and an absent
  \<open>page_size\<close> gives 20. A requested size is used when it parses to an integer in
  1..100; a size that parses to an integer outside 1..100, or does not parse, gives
  the default 20 and is not moved to the nearer bound.
\<close>

theorem page_size_default_not_clamp:
  "1 \<le> parse_page_size ps \<and> parse_page_size ps \<le> 100 \<and> parse_page_size [] = 20 \<and>
   (\<forall>v. Atoi ps = Some v \<and> 1 \<le> v \<and> v \<le> 100 \<longrightarrow> parse_page_size ps = v) \<and>
   (\<forall>v. Atoi ps = Some v \<and> (v < 1 \<or> 100 < v) \<longrightarrow> parse_page_size ps = 20) \<and>
   (Atoi ps = None \<longrightarrow> parse_page_size ps = 20)"
  by (auto simp: parse_page_size_cases Atoi_Nil split: option.splits)

theorem page_size_default_not_clamp_witness:
  "Atoi ''0'' = Some 0 \<and> Atoi ''42'' = Some 42 \<and> Atoi ''abc'' = None \<and>
   parse_page_size ''0'' = 20 \<and> parse_page_size ''42'' = 42 \<and> parse_page_size ''abc'' = 20"
proof -
  have a: "Atoi ''0'' = Some 0" "Atoi ''42'' = Some 42" "Atoi ''abc'' = None"
    by (simp_all add: Atoi_def is_digit_def digits_value_def)
  from a page_size_default_not_clamp [of "''0''"] page_size_default_not_clamp [of "''42''"]
    page_size_default_not_clamp [of "''abc''"]
  show ?thesis by simp
qed

text \<open>
  The claim's own example: a request with \<open>page_size=150\<close> is served with page size 20,
  not with 100.
\<close>

theorem page_size_150_counterexample:
  "Atoi ''150'' = Some 150 \<and> parse_page_size ''150'' = 20 \<and> parse_page_size ''150'' \<noteq> 100"
  by (simp add: parse_page_size_def Atoi_def is_digit_def digits_value_def)

section \<open>User names and letter case\<close>

lemma to_lower_char_idem: "to_lower_char (to_lower_char c) = to_lower_char c"
  by (simp add: to_lower_char_def is_upper_def)

lemma ToLower_idem: "ToLower (ToLower s) = ToLower s"
  by (simp add: ToLower_def to_lower_char_idem)

lemma to_lower_char_upper: "is_upper c \<Longrightarrow> to_lower_char c \<noteq> c"
proof
  assume u: "is_upper c" and e: "to_lower_char c = c"
  then have "char_of ((of_char c :: nat) + 32) = c" by (simp add: to_lower_char_def)
  then have "(of_char (char_of ((of_char c :: nat) + 32) :: char) :: nat) = of_char c" by simp
  with u show False by (simp add: is_upper_def)
qed

lemma ToLower_upper: "list_ex is_upper s \<Longrightarrow> ToLower s \<noteq> s"
proof (induction s)
  case Nil
  then show ?case by simp
next
  case (Cons c s)
  then show ?case using to_lower_char_upper [of c] by (auto simp: ToLower_def)
qed

lemma user_by_username_not_lowercase:
  assumes "usernames_lowercase st" and "ToLower name \<noteq> name"
  shows "user_by_username st name = None"
proof -
  have "filter (\<lambda>u. User_Username u = name) (users st) = []"
    using assms by (auto simp: usernames_lowercase_def list_all_iff filter_empty_conv)
  then show ?thesis by (simp add: user_by_username_def First_None_iff)
qed

section \<open>Balances stay non-negative in sequential runs\<close>

lemma fold_max_ge: "a \<le> fold max ids (a::nat)"
  by (induction ids arbitrary: a) (auto intro: order_trans [OF max.cobounded2])

lemma fold_max_mem_le: "x \<in> set ids \<Longrightarrow> x \<le> fold max ids (a::nat)"
proof (induction ids arbitrary: a)
  case Nil
  then show ?case by simp
next
  case (Cons i ids)
  show ?case
  proof (cases "x = i")
    case True
    have "i \<le> max i a" by simp
    also have "\<dots> \<le> fold max ids (max i a)" by (rule fold_max_ge)
    finally show ?thesis using True by simp
  next
    case False
    with Cons show ?thesis by simp
  qed
qed

lemma auto_increment_fresh: "auto_increment ids \<notin> set ids"
proof
  assume "auto_increment ids \<in> set ids"
  then have "auto_increment ids \<le> fold max ids 0" by (rule fold_max_mem_le)
  then show False by (simp add: auto_increment_def)
qed

lemma wallet_ids_update_balance:
  "map Wallet_ID (wallets (update_balance wid g st)) = map Wallet_ID (wallets st)"
  by (simp add: update_balance_def comp_def)

lemma wallet_ids_distinct_update_balance:
  "wallet_ids_distinct (update_balance wid g st) = wallet_ids_distinct st"
  by (simp add: wallet_ids_distinct_def wallet_ids_update_balance)

lemma balances_nonneg_credit:
  assumes "balances_nonneg st" and "0 \<le> amount"
  shows "balances_nonneg (update_balance wid (\<lambda>b. b + amount) st)"
  using assms by (auto simp: balances_nonneg_def update_balance_def list_all_iff)

lemma balances_nonneg_debit:
  assumes nn: "balances_nonneg st" and d: "wallet_ids_distinct st"
    and fw: "fw \<in> set (wallets st)" and le: "amount \<le> Wallet_Balance fw"
  shows "balances_nonneg (update_balance (Wallet_ID fw) (\<lambda>b. b - amount) st)"
proof -
  have same: "w = fw" if "w \<in> set (wallets st)" and "Wallet_ID w = Wallet_ID fw" for w
    using d that fw by (auto simp: wallet_ids_distinct_def distinct_map inj_on_def)
  have "0 \<le> Wallet_Balance w - amount"
    if "w \<in> set (wallets st)" and "Wallet_ID w = Wallet_ID fw" for w
    using same [OF that] le by simp
  then show ?thesis
    using nn by (auto simp: balances_nonneg_def update_balance_def list_all_iff)
qed

lemma store_ok_create_transaction:
  "store_ok (create_transaction a b c d e st) = store_ok st"
  by (simp add: store_ok_def balances_nonneg_def wallet_ids_distinct_def wallets_create_transaction)

lemma transfer_check_InrD:
  assumes "transfer_check s u body = Inr (req, uid, tu, fw, tw)"
  shows "fw \<in> set (wallets (db s)) \<and> Amount req \<le> Wallet_Balance fw \<and> 0 < Amount req"
proof -
  from assms have "wallet_by_user_id (db s) uid = Some fw \<and> Amount req \<le> Wallet_Balance fw \<and> 0 < Amount req"
    by (auto simp: transfer_check_def split: option.splits if_splits)
  then show ?thesis
    using First_SomeD [of Wallet_ID "\<lambda>w. Wallet_UserID w = uid" "wallets (db s)" fw]
    by (simp add: wallet_by_user_id_def)
qed

lemma store_ok_transfer_commit:
  assumes ok: "store_ok (db s)"
    and fw: "fw \<in> set (wallets (db s))" and le: "Amount req \<le> Wallet_Balance fw"
    and pos: "0 < Amount req"
  shows "store_ok (db (snd (transfer_commit s now (req, uid, tu, fw, tw))))"
proof -
  let ?st1 = "update_balance (Wallet_ID fw) (\<lambda>b. b - Amount req) (db s)"
  let ?st2 = "update_balance (Wallet_ID tw) (\<lambda>b. b + Amount req) ?st1"
  have "store_ok ?st1"
    using ok fw le by (simp add: store_ok_def balances_nonneg_debit wallet_ids_distinct_update_balance)
  then have "store_ok ?st2"
    using pos by (simp add: store_ok_def balances_nonneg_credit wallet_ids_distinct_update_balance)
  then show ?thesis
    by (simp add: transfer_commit_def Let_def store_ok_create_transaction)
qed

lemma store_ok_TransferHandler:
  assumes "store_ok (db s)"
  shows "store_ok (db (snd (TransferHandler s u body now)))"
proof (cases "transfer_check s u body")
  case (Inl r)
  with assms show ?thesis by (simp add: TransferHandler_def)
next
  case (Inr c)
  obtain req uid tu fw tw where c: "c = (req, uid, tu, fw, tw)" by (cases c) auto
  from Inr c transfer_check_InrD [of s u body req uid tu fw tw]
  have "fw \<in> set (wallets (db s)) \<and> Amount req \<le> Wallet_Balance fw \<and> 0 < Amount req" by simp
  with assms show ?thesis
    by (simp add: TransferHandler_def Inr c store_ok_transfer_commit)
qed

lemma store_ok_credit:
  assumes "store_ok st" and "0 \<le> amount"
  shows "store_ok (update_balance wid (\<lambda>b. b + amount) st)"
  using assms by (simp add: store_ok_def balances_nonneg_credit wallet_ids_distinct_update_balance)

lemma store_ok_DepositHandler:
  assumes "store_ok (db s)"
  shows "store_ok (db (snd (DepositHandler s u body now)))"
  using assms
  by (auto simp: DepositHandler_def bind_deposit_def Let_def store_ok_create_transaction
        store_ok_credit split: option.splits if_splits)

lemma store_ok_CreateWalletHandler:
  assumes "store_ok (db s)"
  shows "store_ok (db (snd (CreateWalletHandler s u)))"
proof -
  have "store_ok st1" if "create_wallet uid (db s) = Some (w, st1)" for uid w st1
    using that assms auto_increment_fresh [of "map Wallet_ID (wallets (db s))"]
    by (auto simp: create_wallet_def store_ok_def balances_nonneg_def wallet_ids_distinct_def
          Let_def split: if_splits)
  then show ?thesis
    using assms by (auto simp: CreateWalletHandler_def split: option.splits)
qed

lemma store_ok_GetWalletHandler:
  "db (snd (GetWalletHandler s u)) = db s"
  by (auto simp: GetWalletHandler_def split: option.splits)

lemma store_ok_GetTransactionHistoryHandler:
  "db (snd (GetTransactionHistoryHandler ob s u p ps)) = db s"
  by (auto simp: GetTransactionHistoryHandler_def Let_def split: option.splits)

lemma store_ok_RegisterHandler:
  assumes "store_ok (db s)"
  shows "store_ok (db (snd (RegisterHandler s body h)))"
  using assms
  by (auto simp: RegisterHandler_def create_user_def store_ok_def balances_nonneg_def
        wallet_ids_distinct_def split: option.splits if_splits)

lemma store_ok_perform:
  assumes "store_ok (db s)"
  shows "store_ok (db (snd (perform s x)))"
  using assms
  by (cases x)
     (simp_all add: store_ok_RegisterHandler store_ok_CreateWalletHandler store_ok_DepositHandler
        store_ok_TransferHandler store_ok_GetWalletHandler store_ok_GetTransactionHistoryHandler)

lemma store_ok_run:
  assumes "store_ok (db s)"
  shows "store_ok (db (snd (run s xs)))"
  using assms
proof (induction xs arbitrary: s)
  case Nil
  then show ?case by simp
next
  case (Cons x xs)
  obtain r s1 where p: "perform s x = (r, s1)" by (cases "perform s x") auto
  with Cons.prems store_ok_perform [of s x] have "store_ok (db s1)" by simp
  then have "store_ok (db (snd (run s1 xs)))" by (rule Cons.IH)
  then show ?case by (cases "run s1 xs") (simp add: p)
qed

text \<open>
  C5. From a store in which every balance is non-negative (and the wallets' primary
  keys are distinct, as the table's key makes them), every sequence of register,
  create-account, deposit, transfer, get-balance and get-history requests, run one
  after the other with any arguments, ends in a store in which every balance is
  non-negative. A deposit adds an amount above zero; a transfer debits a wallet only
  after finding its balance at least the amount.
\<close>

theorem balances_never_negative:
  assumes "balances_nonneg (db s)" and "wallet_ids_distinct (db s)"
  shows "balances_nonneg (db (snd (run s ops)))"
  using assms store_ok_run [of s ops] by (simp add: store_ok_def)

theorem balances_never_negative_witness:
  "balances_nonneg (db (two_wallets 100 0)) \<and> wallet_ids_distinct (db (two_wallets 100 0)) \<and>
   balances_nonneg (db (snd (run (two_wallets 100 0)
     [Transfer (Some 1) (Some \<lparr>ToUsername = ''bob'', Amount = 60\<rparr>) 7,
      Transfer (Some 1) (Some \<lparr>ToUsername = ''bob'', Amount = 60\<rparr>) 8,
      Deposit (Some 2) (Some 5) 9, GetBalance (Some 1), CreateAccount (Some 3)])))"
proof -
  have a: "balances_nonneg (db (two_wallets 100 0))" by code_simp
  have b: "wallet_ids_distinct (db (two_wallets 100 0))" by code_simp
  show ?thesis by (intro conjI) (rule a b balances_never_negative [OF a b])+
qed

section \<open>Cache keys\<close>

lemma digits_value_snoc: "digits_value (ds @ [c]) = 10 * digits_value ds + (of_char c - 48)"
  by (simp add: digits_value_def)

lemma of_char_digit_char: "d < 10 \<Longrightarrow> (of_char (digit_char d) :: nat) = 48 + d"
  by (simp add: digit_char_def)

lemma digits_value_itoa_nat: "digits_value (itoa_nat n) = n"
proof (induction n rule: itoa_nat.induct)
  case (1 n)
  show ?case
  proof (cases "n < 10")
    case True
    then show ?thesis
      by (simp add: itoa_nat.simps [of n] digits_value_def of_char_digit_char)
  next
    case False
    with 1 have "digits_value (itoa_nat (n div 10)) = n div 10" by simp
    with False show ?thesis
      by (simp add: itoa_nat.simps [of n] digits_value_snoc of_char_digit_char)
  qed
qed

lemma Itoa_int_inj:
  assumes "Itoa (int a) = Itoa (int b)"
  shows "a = b"
proof -
  from assms have "itoa_nat a = itoa_nat b" by (simp add: Itoa_def)
  then have "digits_value (itoa_nat a) = digits_value (itoa_nat b)" by (rule arg_cong)
  then show ?thesis by (simp only: digits_value_itoa_nat)
qed

lemma wallet_key_inj: "wallet_key a = wallet_key b \<longleftrightarrow> a = b"
  by (auto simp: wallet_key_def dest: Itoa_int_inj)

lemma wallet_key_neq_txhistory_key: "wallet_key a \<noteq> txhistory_key b i n"
  by (simp add: wallet_key_def txhistory_key_def)

section \<open>Cache after invalidation\<close>

lemma fold_DeleteCache_apply:
  "fold (\<lambda>i. DeleteCache (f i)) xs c k = (if k \<in> f ` set xs then None else c k)"
  by (induction xs arbitrary: c) (auto simp: DeleteCache_def)

lemma fold_DeleteCache2_apply:
  "fold (\<lambda>i c. DeleteCache (g i) (DeleteCache (f i) c)) xs c k =
     (if k \<in> f ` set xs \<union> g ` set xs then None else c k)"
  by (induction xs arbitrary: c) (auto simp: DeleteCache_def)

lemma invalidate_history_apply:
  "invalidate_history uid c k =
     (if k \<in> (\<lambda>i. txhistory_key uid i 20) ` set [1, 2, 3, 4, 5] then None else c k)"
  unfolding invalidate_history_def by (rule fold_DeleteCache_apply)

lemma invalidated_deposit:
  "invalidated (invalidate_history uid (DeleteCache (wallet_key uid) c)) uid"
proof -
  have "wallet_key uid \<notin> (\<lambda>i. txhistory_key uid i 20) ` set [1, 2, 3, 4, 5]"
    using wallet_key_neq_txhistory_key by blast
  then have "invalidate_history uid (DeleteCache (wallet_key uid) c) (wallet_key uid) = None"
    by (simp only: invalidate_history_apply if_False) (simp add: DeleteCache_def)
  moreover have "invalidate_history uid (DeleteCache (wallet_key uid) c) (txhistory_key uid i 20) = None"
    if "i \<in> set [1, 2, 3, 4, 5]" for i
  proof -
    from that have "txhistory_key uid i 20 \<in> (\<lambda>i. txhistory_key uid i 20) ` set [1, 2, 3, 4, 5]"
      by (rule imageI)
    then show ?thesis by (simp only: invalidate_history_apply if_True)
  qed
  ultimately show ?thesis
    unfolding invalidated_def list_all_iff by blast
qed

lemma transfer_cache_apply:
  "transfer_cache a b c k =
     (if k \<in> (\<lambda>i. txhistory_key a i 20) ` set [1, 2, 3, 4, 5] \<union>
              (\<lambda>i. txhistory_key b i 20) ` set [1, 2, 3, 4, 5] then None
      else if k = wallet_key b \<or> k = wallet_key a then None else c k)"
  unfolding transfer_cache_def fold_DeleteCache2_apply by (simp add: DeleteCache_def)

lemma invalidated_transfer:
  "invalidated (transfer_cache a b c) a \<and> invalidated (transfer_cache a b c) b"
proof -
  have w: "transfer_cache a b c (wallet_key a) = None" "transfer_cache a b c (wallet_key b) = None"
    by (simp_all only: transfer_cache_apply) simp_all
  have h: "transfer_cache a b c (txhistory_key a i 20) = None"
      "transfer_cache a b c (txhistory_key b i 20) = None"
    if "i \<in> set [1, 2, 3, 4, 5]" for i
  proof -
    from that have "txhistory_key a i 20 \<in> (\<lambda>i. txhistory_key a i 20) ` set [1, 2, 3, 4, 5]"
      and "txhistory_key b i 20 \<in> (\<lambda>i. txhistory_key b i 20) ` set [1, 2, 3, 4, 5]"
      by (rule imageI)+
    then show "transfer_cache a b c (txhistory_key a i 20) = None"
      and "transfer_cache a b c (txhistory_key b i 20) = None"
      by (simp_all only: transfer_cache_apply Un_iff simp_thms if_True)
  qed
  from w h show ?thesis
    unfolding invalidated_def list_all_iff by blast
qed

section \<open>Handlers on their success paths\<close>

lemma DepositHandler_success:
  assumes "wallet_by_user_id (db s) uid = Some w" and "0 < amount"
  shows "DepositHandler s (Some uid) (Some amount) now =
     (MessageResp 200 ''Deposit successful'',
      \<lparr>db = create_transaction None (Some (Wallet_ID w)) amount ''deposit'' now
              (update_balance (Wallet_ID w) (\<lambda>b. b + amount) (db s)),
        rdb = invalidate_history uid (DeleteCache (wallet_key uid) (rdb s))\<rparr>)"
  using assms by (simp add: DepositHandler_def bind_deposit_def Let_def)

lemma GetWalletHandler_miss:
  assumes "rdb s (wallet_key uid) = None" and "wallet_by_user_id (db s) uid = Some w"
  shows "GetWalletHandler s (Some uid) =
     (WalletResp 200 w False, s\<lparr>rdb := SetCache (wallet_key uid) (CachedWallet w) (rdb s)\<rparr>)"
  using assms by (simp add: GetWalletHandler_def GetCache_def)

lemma transfer_check_success:
  assumes "wallet_by_user_id (db s) a = Some fw"
    and "user_by_username (db s) name = Some u"
    and "User_ID u \<noteq> a"
    and "wallet_by_user_id (db s) (User_ID u) = Some tw"
    and "name \<noteq> []"
    and "0 < amount"
    and "amount \<le> Wallet_Balance fw"
  shows "transfer_check s (Some a) (Some \<lparr>ToUsername = name, Amount = amount\<rparr>) =
           Inr (\<lparr>ToUsername = name, Amount = amount\<rparr>, a, u, fw, tw)"
  using assms by (simp add: transfer_check_def bind_transfer_def)

lemma transfer_commit_eq:
  "transfer_commit s now (req, a, u, fw, tw) =
     (MessageResp 200 ''Transfer successful'',
      \<lparr>db = create_transaction (Some (Wallet_ID fw)) (Some (Wallet_ID tw)) (Amount req)
              ''transfer'' now
              (update_balance (Wallet_ID tw) (\<lambda>b. b + Amount req)
                 (update_balance (Wallet_ID fw) (\<lambda>b. b - Amount req) (db s))),
        rdb = transfer_cache a (User_ID u) (rdb s)\<rparr>)"
  by (simp add: transfer_commit_def Let_def transfer_cache_def)

lemma TransferHandler_success:
  assumes "wallet_by_user_id (db s) a = Some fw"
    and "user_by_username (db s) name = Some u"
    and "User_ID u \<noteq> a"
    and "wallet_by_user_id (db s) (User_ID u) = Some tw"
    and "name \<noteq> []"
    and "0 < amount"
    and "amount \<le> Wallet_Balance fw"
  shows "TransferHandler s (Some a) (Some \<lparr>ToUsername = name, Amount = amount\<rparr>) now =
     (MessageResp 200 ''Transfer successful'',
      \<lparr>db = create_transaction (Some (Wallet_ID fw)) (Some (Wallet_ID tw)) amount ''transfer'' now
              (update_balance (Wallet_ID tw) (\<lambda>b. b + amount)
                 (update_balance (Wallet_ID fw) (\<lambda>b. b - amount) (db s))),
        rdb = transfer_cache a (User_ID u) (rdb s)\<rparr>)"
  by (simp add: TransferHandler_def transfer_check_success [OF assms] transfer_commit_eq)

section \<open>Deposit, transfer and read back\<close>

lemma wallet_ids_differ:
  assumes d: "wallet_ids_distinct st"
    and wa: "wallet_by_user_id st a = Some wa"
    and wb: "wallet_by_user_id st b = Some wb"
    and ab: "b \<noteq> a"
  shows "Wallet_ID wa \<noteq> Wallet_ID wb"
proof
  assume e: "Wallet_ID wa = Wallet_ID wb"
  from wa have ma: "wa \<in> set (wallets st) \<and> Wallet_UserID wa = a"
    using First_SomeD [of Wallet_ID "\<lambda>w. Wallet_UserID w = a" "wallets st" wa]
    by (simp add: wallet_by_user_id_def)
  from wb have mb: "wb \<in> set (wallets st) \<and> Wallet_UserID wb = b"
    using First_SomeD [of Wallet_ID "\<lambda>w. Wallet_UserID w = b" "wallets st" wb]
    by (simp add: wallet_by_user_id_def)
  from d ma mb e have "wa = wb"
    by (auto simp: wallet_ids_distinct_def distinct_map inj_on_def)
  with ma mb ab show False by simp
qed

text \<open>
  C6. Let \<open>a\<close> own a wallet with balance 0 and let the user named \<open>name\<close> be another
  user who owns a wallet with balance 0, in a store whose wallets have distinct primary
  keys, with any cache contents. Then depositing 100 for \<open>a\<close> and reading \<open>a\<close>'s wallet
  returns balance 100, and transferring 40 from \<open>a\<close> to \<open>name\<close> and reading both wallets
  returns balance 60 for \<open>a\<close> and 40 for the other user; every read is served by the
  store.
\<close>

theorem deposit_transfer_round_trip:
  assumes d: "wallet_ids_distinct (db s)"
    and wa: "wallet_by_user_id (db s) a = Some wa" and za: "Wallet_Balance wa = 0"
    and ub: "user_by_username (db s) name = Some ub" and ne: "name \<noteq> []"
    and ab: "User_ID ub \<noteq> a"
    and wb: "wallet_by_user_id (db s) (User_ID ub) = Some wb" and zb: "Wallet_Balance wb = 0"
  shows "fst (run s [Deposit (Some a) (Some 100) t1, GetBalance (Some a),
                     Transfer (Some a) (Some \<lparr>ToUsername = name, Amount = 40\<rparr>) t2,
                     GetBalance (Some a), GetBalance (Some (User_ID ub))]) =
         [MessageResp 200 ''Deposit successful'',
          WalletResp 200 (wa\<lparr>Wallet_Balance := 100\<rparr>) False,
          MessageResp 200 ''Transfer successful'',
          WalletResp 200 (wa\<lparr>Wallet_Balance := 60\<rparr>) False,
          WalletResp 200 (wb\<lparr>Wallet_Balance := 40\<rparr>) False]"
proof -
  let ?b = "User_ID ub"
  have ids: "Wallet_ID wa \<noteq> Wallet_ID wb" "Wallet_ID wb \<noteq> Wallet_ID wa"
    using wallet_ids_differ [OF d wa wb ab] by auto
  define s1 where "s1 =
    \<lparr>db = create_transaction None (Some (Wallet_ID wa)) 100 ''deposit'' t1
            (update_balance (Wallet_ID wa) (\<lambda>b. b + 100) (db s)),
      rdb = invalidate_history a (DeleteCache (wallet_key a) (rdb s))\<rparr>"
  have step1: "DepositHandler s (Some a) (Some 100) t1 = (MessageResp 200 ''Deposit successful'', s1)"
    unfolding s1_def by (rule DepositHandler_success [OF wa]) simp
  have wa1: "wallet_by_user_id (db s1) a = Some (wa\<lparr>Wallet_Balance := 100\<rparr>)"
    by (simp add: s1_def wallet_by_user_id_create_transaction wallet_by_user_id_update_balance wa za)
  have wb1: "wallet_by_user_id (db s1) ?b = Some wb"
    by (simp add: s1_def wallet_by_user_id_create_transaction wallet_by_user_id_update_balance wb ids)
  have ub1: "user_by_username (db s1) name = Some ub"
    by (simp add: s1_def user_by_username_create_transaction user_by_username_update_balance ub)
  have c1: "rdb s1 (wallet_key a) = None"
    using invalidated_deposit [of a "rdb s"] by (simp add: s1_def invalidated_def)
  define s2 where "s2 =
    s1\<lparr>rdb := SetCache (wallet_key a) (CachedWallet (wa\<lparr>Wallet_Balance := 100\<rparr>)) (rdb s1)\<rparr>"
  have step2: "GetWalletHandler s1 (Some a) =
      (WalletResp 200 (wa\<lparr>Wallet_Balance := 100\<rparr>) False, s2)"
    unfolding s2_def by (rule GetWalletHandler_miss [OF c1 wa1])
  have wa2: "wallet_by_user_id (db s2) a = Some (wa\<lparr>Wallet_Balance := 100\<rparr>)"
    and wb2: "wallet_by_user_id (db s2) ?b = Some wb"
    and ub2: "user_by_username (db s2) name = Some ub"
    using wa1 wb1 ub1 by (simp_all add: s2_def)
  define s3 where "s3 =
    \<lparr>db = create_transaction (Some (Wallet_ID wa)) (Some (Wallet_ID wb)) 40 ''transfer'' t2
            (update_balance (Wallet_ID wb) (\<lambda>b. b + 40)
               (update_balance (Wallet_ID wa) (\<lambda>b. b - 40) (db s2))),
      rdb = transfer_cache a ?b (rdb s2)\<rparr>"
  have step3: "TransferHandler s2 (Some a) (Some \<lparr>ToUsername = name, Amount = 40\<rparr>) t2 =
      (MessageResp 200 ''Transfer successful'', s3)"
    using TransferHandler_success [OF wa2 ub2 ab wb2 ne, of 40 t2] by (simp add: s3_def)
  have wa3: "wallet_by_user_id (db s3) a = Some (wa\<lparr>Wallet_Balance := 60\<rparr>)"
    by (simp add: s3_def wallet_by_user_id_create_transaction wallet_by_user_id_update_balance
          wa2 ids)
  have wb3: "wallet_by_user_id (db s3) ?b = Some (wb\<lparr>Wallet_Balance := 40\<rparr>)"
    by (simp add: s3_def wallet_by_user_id_create_transaction wallet_by_user_id_update_balance
          wb2 ids zb)
  have c3: "rdb s3 (wallet_key a) = None" "rdb s3 (wallet_key ?b) = None"
    using invalidated_transfer [of a ?b "rdb s2"] by (simp_all add: s3_def invalidated_def)
  define s4 where "s4 =
    s3\<lparr>rdb := SetCache (wallet_key a) (CachedWallet (wa\<lparr>Wallet_Balance := 60\<rparr>)) (rdb s3)\<rparr>"
  have step4: "GetWalletHandler s3 (Some a) =
      (WalletResp 200 (wa\<lparr>Wallet_Balance := 60\<rparr>) False, s4)"
    unfolding s4_def by (rule GetWalletHandler_miss [OF c3(1) wa3])
  have c4: "rdb s4 (wallet_key ?b) = None"
    using c3(2) ab by (simp add: s4_def SetCache_def wallet_key_inj)
  have wb4: "wallet_by_user_id (db s4) ?b = Some (wb\<lparr>Wallet_Balance := 40\<rparr>)"
    using wb3 by (simp add: s4_def)
  note step5 = GetWalletHandler_miss [OF c4 wb4]
  show ?thesis
    by (simp add: step1 step2 step3 step4 step5)
qed

theorem deposit_transfer_round_trip_witness:
  "fst (run (two_wallets 0 0) [Deposit (Some 1) (Some 100) 7, GetBalance (Some 1),
                     Transfer (Some 1) (Some \<lparr>ToUsername = ''bob'', Amount = 40\<rparr>) 8,
                     GetBalance (Some 1), GetBalance (Some 2)]) =
         [MessageResp 200 ''Deposit successful'',
          WalletResp 200 \<lparr>Wallet_ID = 1, Wallet_UserID = 1, Wallet_Balance = 100\<rparr> False,
          MessageResp 200 ''Transfer successful'',
          WalletResp 200 \<lparr>Wallet_ID = 1, Wallet_UserID = 1, Wallet_Balance = 60\<rparr> False,
          WalletResp 200 \<lparr>Wallet_ID = 2, Wallet_UserID = 2, Wallet_Balance = 40\<rparr> False]"
proof -
  have d: "wallet_ids_distinct (db (two_wallets 0 0))" by code_simp
  have wa: "wallet_by_user_id (db (two_wallets 0 0)) 1 =
     Some \<lparr>Wallet_ID = 1, Wallet_UserID = 1, Wallet_Balance = 0\<rparr>" by (rule two_wallets_lookup)
  have za: "Wallet_Balance \<lparr>Wallet_ID = 1, Wallet_UserID = 1, Wallet_Balance = 0\<rparr> = 0" by simp
  have ub: "user_by_username (db (two_wallets 0 0)) ''bob'' = Some bob" by (rule two_wallets_lookup)
  have ne: "''bob'' \<noteq> []" by simp
  have ab: "User_ID bob \<noteq> 1" by (simp add: bob_def)
  have wb: "wallet_by_user_id (db (two_wallets 0 0)) (User_ID bob) =
     Some \<lparr>Wallet_ID = 2, Wallet_UserID = 2, Wallet_Balance = 0\<rparr>"
    by (simp add: bob_def two_wallets_lookup)
  have zb: "Wallet_Balance \<lparr>Wallet_ID = 2, Wallet_UserID = 2, Wallet_Balance = 0\<rparr> = 0" by simp
  have b2: "User_ID bob = 2" by (simp add: bob_def)
  show ?thesis
    using deposit_transfer_round_trip [OF d wa za ub ne ab wb zb, of 7 8]
    by (simp only: b2 Wallet.simps)
qed

section \<open>Cache invalidation by deposits and transfers\<close>

lemma transfer_check_Inl_status:
  "transfer_check s ctx body = Inl r \<Longrightarrow> status r \<noteq> 200"
  by (auto simp: transfer_check_def split: option.splits if_splits)

lemma transfer_check_Inr_reads:
  assumes "transfer_check s ctx body = Inr (req, uid, u, fw, tw)"
  shows "ctx = Some uid \<and> body = Some req \<and>
         user_by_username (db s) (ToUsername req) = Some u \<and>
         wallet_by_user_id (db s) uid = Some fw \<and>
         wallet_by_user_id (db s) (User_ID u) = Some tw"
  using assms
  by (auto simp: transfer_check_def bind_transfer_def split: option.splits if_splits)

lemma deposit_invalidates:
  assumes run: "DepositHandler s ctx body now = (r, s1)" and ok: "status r = 200"
  shows "\<exists>uid w. ctx = Some uid \<and> invalidated (rdb s1) uid \<and>
           wallet_by_user_id (db s1) uid = Some w \<and>
           GetWalletHandler s1 (Some uid) =
             (WalletResp 200 w False,
              s1\<lparr>rdb := SetCache (wallet_key uid) (CachedWallet w) (rdb s1)\<rparr>)"
proof -
  from assms obtain uid where ctx: "ctx = Some uid"
    by (cases ctx) (auto simp: DepositHandler_def)
  from assms ctx obtain amount where body: "body = Some amount" and pos: "0 < amount"
    by (cases body) (auto simp: DepositHandler_def bind_deposit_def split: if_splits)
  from assms ctx body pos obtain w where w: "wallet_by_user_id (db s) uid = Some w"
    by (cases "wallet_by_user_id (db s) uid") (auto simp: DepositHandler_def bind_deposit_def)
  from run have s1: "s1 =
      \<lparr>db = create_transaction None (Some (Wallet_ID w)) amount ''deposit'' now
              (update_balance (Wallet_ID w) (\<lambda>b. b + amount) (db s)),
        rdb = invalidate_history uid (DeleteCache (wallet_key uid) (rdb s))\<rparr>"
    by (simp add: ctx body DepositHandler_success [OF w pos])
  have inv: "invalidated (rdb s1) uid"
    by (simp add: s1 invalidated_deposit)
  have w1: "wallet_by_user_id (db s1) uid = Some (w\<lparr>Wallet_Balance := Wallet_Balance w + amount\<rparr>)"
    by (simp add: s1 wallet_by_user_id_create_transaction wallet_by_user_id_update_balance w)
  from inv have miss: "rdb s1 (wallet_key uid) = None" by (simp add: invalidated_def)
  from ctx inv w1 GetWalletHandler_miss [OF miss w1] show ?thesis by blast
qed

lemma transfer_invalidates:
  assumes run: "TransferHandler s ctx body now = (r, s2)" and ok: "status r = 200"
  shows "\<exists>uid req u wf wt. ctx = Some uid \<and> body = Some req \<and>
           user_by_username (db s) (ToUsername req) = Some u \<and>
           invalidated (rdb s2) uid \<and> invalidated (rdb s2) (User_ID u) \<and>
           wallet_by_user_id (db s2) uid = Some wf \<and>
           wallet_by_user_id (db s2) (User_ID u) = Some wt \<and>
           GetWalletHandler s2 (Some uid) =
             (WalletResp 200 wf False,
              s2\<lparr>rdb := SetCache (wallet_key uid) (CachedWallet wf) (rdb s2)\<rparr>) \<and>
           GetWalletHandler s2 (Some (User_ID u)) =
             (WalletResp 200 wt False,
              s2\<lparr>rdb := SetCache (wallet_key (User_ID u)) (CachedWallet wt) (rdb s2)\<rparr>)"
proof (cases "transfer_check s ctx body")
  case (Inl e)
  with run have "r = e" by (simp add: TransferHandler_def)
  with Inl ok transfer_check_Inl_status [of s ctx body e] show ?thesis by simp
next
  case (Inr c)
  obtain req uid u fw tw where c: "c = (req, uid, u, fw, tw)" by (cases c) auto
  note reads = transfer_check_Inr_reads [OF Inr [unfolded c]]
  from run have s2: "s2 =
      \<lparr>db = create_transaction (Some (Wallet_ID fw)) (Some (Wallet_ID tw)) (Amount req)
              ''transfer'' now
              (update_balance (Wallet_ID tw) (\<lambda>b. b + Amount req)
                 (update_balance (Wallet_ID fw) (\<lambda>b. b - Amount req) (db s))),
        rdb = transfer_cache uid (User_ID u) (rdb s)\<rparr>"
    by (simp add: TransferHandler_def Inr c transfer_commit_eq)
  have inv: "invalidated (rdb s2) uid" "invalidated (rdb s2) (User_ID u)"
    using invalidated_transfer [of uid "User_ID u" "rdb s"] by (simp_all add: s2)
  obtain wf where wf: "wallet_by_user_id (db s2) uid = Some wf"
    using reads
    by (simp add: s2 wallet_by_user_id_create_transaction wallet_by_user_id_update_balance)
  obtain wt where wt: "wallet_by_user_id (db s2) (User_ID u) = Some wt"
    using reads
    by (simp add: s2 wallet_by_user_id_create_transaction wallet_by_user_id_update_balance)
  from inv have miss: "rdb s2 (wallet_key uid) = None" "rdb s2 (wallet_key (User_ID u)) = None"
    by (simp_all add: invalidated_def)
  from reads inv wf wt GetWalletHandler_miss [OF miss(1) wf] GetWalletHandler_miss [OF miss(2) wt]
  show ?thesis by blast
qed

text \<open>
  C2, as the code has it. A deposit that succeeds deletes the depositor's cached wallet
  and the cached history pages 1 to 5 of page size 20; a transfer that succeeds does so
  for the sender and for the recipient. No other history key is deleted. So the next
  read of the wallet of a user involved misses the cache and returns the wallet as the
  store holds it after the mutation, whatever was cached before.
\<close>

theorem mutation_invalidates_balance_and_first_pages:
  "(DepositHandler s ctx amount now = (r, s1) \<and> status r = 200 \<longrightarrow>
      (\<exists>uid w. ctx = Some uid \<and> invalidated (rdb s1) uid \<and>
         wallet_by_user_id (db s1) uid = Some w \<and>
         fst (GetWalletHandler s1 (Some uid)) = WalletResp 200 w False)) \<and>
   (TransferHandler s ctx body now = (r, s2) \<and> status r = 200 \<longrightarrow>
      (\<exists>uid req u wf wt. ctx = Some uid \<and> body = Some req \<and>
         user_by_username (db s) (ToUsername req) = Some u \<and>
         invalidated (rdb s2) uid \<and> invalidated (rdb s2) (User_ID u) \<and>
         wallet_by_user_id (db s2) uid = Some wf \<and>
         wallet_by_user_id (db s2) (User_ID u) = Some wt \<and>
         fst (GetWalletHandler s2 (Some uid)) = WalletResp 200 wf False \<and>
         fst (GetWalletHandler s2 (Some (User_ID u))) = WalletResp 200 wt False))"
proof (intro conjI impI)
  assume "DepositHandler s ctx amount now = (r, s1) \<and> status r = 200"
  then have "DepositHandler s ctx amount now = (r, s1)" and "status r = 200" by simp_all
  from deposit_invalidates [OF this] 
  show "\<exists>uid w. ctx = Some uid \<and> invalidated (rdb s1) uid \<and>
         wallet_by_user_id (db s1) uid = Some w \<and>
         fst (GetWalletHandler s1 (Some uid)) = WalletResp 200 w False"
    by fastforce
next
  assume "TransferHandler s ctx body now = (r, s2) \<and> status r = 200"
  then have "TransferHandler s ctx body now = (r, s2)" and "status r = 200" by simp_all
  from transfer_invalidates [OF this] obtain uid req u wf wt where
    h: "ctx = Some uid" "body = Some req"
           "user_by_username (db s) (ToUsername req) = Some u"
           "invalidated (rdb s2) uid" "invalidated (rdb s2) (User_ID u)"
           "wallet_by_user_id (db s2) uid = Some wf"
           "wallet_by_user_id (db s2) (User_ID u) = Some wt"
           "GetWalletHandler s2 (Some uid) =
             (WalletResp 200 wf False,
              s2\<lparr>rdb := SetCache (wallet_key uid) (CachedWallet wf) (rdb s2)\<rparr>)"
           "GetWalletHandler s2 (Some (User_ID u)) =
             (WalletResp 200 wt False,
              s2\<lparr>rdb := SetCache (wallet_key (User_ID u)) (CachedWallet wt) (rdb s2)\<rparr>)"
    by blast
  have "fst (GetWalletHandler s2 (Some uid)) = WalletResp 200 wf False"
    "fst (GetWalletHandler s2 (Some (User_ID u))) = WalletResp 200 wt False"
    by (simp_all add: h(8,9))
  with h(1-7)
  show "\<exists>uid req u wf wt. ctx = Some uid \<and> body = Some req \<and>
         user_by_username (db s) (ToUsername req) = Some u \<and>
         invalidated (rdb s2) uid \<and> invalidated (rdb s2) (User_ID u) \<and>
         wallet_by_user_id (db s2) uid = Some wf \<and>
         wallet_by_user_id (db s2) (User_ID u) = Some wt \<and>
         fst (GetWalletHandler s2 (Some uid)) = WalletResp 200 wf False \<and>
         fst (GetWalletHandler s2 (Some (User_ID u))) = WalletResp 200 wt False"
    by blast
qed


theorem mutation_invalidates_balance_and_first_pages_witness:
  "rdb (snd (GetWalletHandler (two_wallets 50 0) (Some 1))) (wallet_key 1) =
     Some (CachedWallet \<lparr>Wallet_ID = 1, Wallet_UserID = 1, Wallet_Balance = 50\<rparr>) \<and>
   fst (GetWalletHandler
          (snd (DepositHandler (snd (GetWalletHandler (two_wallets 50 0) (Some 1)))
                 (Some 1) (Some 100) 7)) (Some 1)) =
     WalletResp 200 \<lparr>Wallet_ID = 1, Wallet_UserID = 1, Wallet_Balance = 150\<rparr> False \<and>
   fst (GetWalletHandler
          (snd (TransferHandler (snd (GetWalletHandler (two_wallets 50 0) (Some 1)))
                 (Some 1) (Some \<lparr>ToUsername = ''bob'', Amount = 20\<rparr>) 7)) (Some 1)) =
     WalletResp 200 \<lparr>Wallet_ID = 1, Wallet_UserID = 1, Wallet_Balance = 30\<rparr> False"
proof -
  let ?s = "snd (GetWalletHandler (two_wallets 50 0) (Some 1))"
  let ?d = "DepositHandler ?s (Some 1) (Some 100) 7"
  let ?t = "TransferHandler ?s (Some 1) (Some \<lparr>ToUsername = ''bob'', Amount = 20\<rparr>) 7"
  have stale: "rdb ?s (wallet_key 1) =
     Some (CachedWallet \<lparr>Wallet_ID = 1, Wallet_UserID = 1, Wallet_Balance = 50\<rparr>)"
    by code_simp
  have d: "?d = (fst ?d, snd ?d) \<and> status (fst ?d) = 200"
    by (rule conjI) (simp, code_simp)
  have t: "?t = (fst ?t, snd ?t) \<and> status (fst ?t) = 200"
    by (rule conjI) (simp, code_simp)
  have wd: "wallet_by_user_id (db (snd ?d)) 1 =
      Some \<lparr>Wallet_ID = 1, Wallet_UserID = 1, Wallet_Balance = 150\<rparr>"
    by code_simp
  have wt: "wallet_by_user_id (db (snd ?t)) 1 =
      Some \<lparr>Wallet_ID = 1, Wallet_UserID = 1, Wallet_Balance = 30\<rparr>"
    by code_simp
  from mutation_invalidates_balance_and_first_pages
         [of ?s "Some 1" "Some 100" 7 "fst ?d" "snd ?d" _ "snd ?t"] d
  have "fst (GetWalletHandler (snd ?d) (Some 1)) =
     WalletResp 200 \<lparr>Wallet_ID = 1, Wallet_UserID = 1, Wallet_Balance = 150\<rparr> False"
    using wd by auto
  moreover
  from mutation_invalidates_balance_and_first_pages
         [of ?s "Some 1" _ 7 "fst ?t" _ "Some \<lparr>ToUsername = ''bob'', Amount = 20\<rparr>" "snd ?t"] t
  have "fst (GetWalletHandler (snd ?t) (Some 1)) =
     WalletResp 200 \<lparr>Wallet_ID = 1, Wallet_UserID = 1, Wallet_Balance = 30\<rparr> False"
    using wt by auto
  ultimately show ?thesis using stale by simp
qed

text \<open>
  A history page cached under another page size is a key whose data the deposit
  changes and which the deposit does not delete: the page of size 10 cached before the
  deposit, with no entries, is still cached after it, when the wallet has one entry.
\<close>

theorem history_page_survives_deposit_counterexample:
  "fst (run (two_wallets 0 0)
          [GetHistory (\<lambda>rows. rows) (Some 1) ''1'' ''10'', Deposit (Some 1) (Some 100) 7]) =
     [HistoryResp 200 \<lparr>Page_Transactions = [], Page_Page = 1, Page_PageSize = 10,
                        Page_Total = 0, Page_TotalPages = 0\<rparr> False,
      MessageResp 200 ''Deposit successful''] \<and>
   length (history_rows (db (snd (run (two_wallets 0 0)
          [GetHistory (\<lambda>rows. rows) (Some 1) ''1'' ''10'', Deposit (Some 1) (Some 100) 7]))) 1) = 1 \<and>
   rdb (snd (run (two_wallets 0 0)
          [GetHistory (\<lambda>rows. rows) (Some 1) ''1'' ''10'', Deposit (Some 1) (Some 100) 7]))
       (txhistory_key 1 1 10) =
     Some (CachedHistory \<lparr>Page_Transactions = [], Page_Page = 1, Page_PageSize = 10,
                           Page_Total = 0, Page_TotalPages = 0\<rparr>)"
  by code_simp

section \<open>History pages\<close>

lemma round_up_div:
  assumes b: "0 < (b::int)"
  shows "(a + b - 1) div b = - ((- a) div b)"
proof -
  define q r where "q = a div b" and "r = a mod b"
  have a: "a = r + b * q" by (simp add: q_def r_def)
  have r: "0 \<le> r" "r < b" using b by (simp_all add: r_def)
  have nz: "b \<noteq> 0" using b by simp
  have e: "a + b - 1 = (r + b - 1) + b * q" using a by simp
  have "(a + b - 1) div b = ((r + b - 1) + b * q) div b" by (simp only: e)
  also have "\<dots> = q + (r + b - 1) div b" using nz by (rule div_mult_self2)
  finally have lhs: "(a + b - 1) div b = q + (r + b - 1) div b" .
  have rhs: "(- a) div b = (if r = 0 then - q else - q - 1)"
    using nz by (simp add: zdiv_zminus1_eq_if q_def r_def)
  show ?thesis
  proof (cases "r = 0")
    case True
    have "(b - 1) div b = 0" using b by (intro div_pos_pos_trivial) simp_all
    with True lhs rhs show ?thesis by simp
  next
    case False
    with r have r1: "0 \<le> r - 1" "r - 1 < b" by simp_all
    have e1: "r + b - 1 = (r - 1) + b * 1" by simp
    have "(r + b - 1) div b = ((r - 1) + b * 1) div b" by (simp only: e1)
    also have "\<dots> = 1 + (r - 1) div b" using nz by (rule div_mult_self2)
    also have "(r - 1) div b = 0" using r1 by (intro div_pos_pos_trivial)
    finally have "(r + b - 1) div b = 1" by simp
    with False lhs rhs show ?thesis by simp
  qed
qed

lemma total_pages_is_ceiling:
  assumes "0 < page_size"
  shows "(n + page_size - 1) div page_size = pages_needed n page_size"
  using round_up_div [OF assms, of n] by (simp add: pages_needed_def ceiling_divide_eq_div)

lemma GetTransactionHistoryHandler_miss:
  assumes "wallet_by_user_id (db s) uid = Some w"
    and "rdb s (txhistory_key uid (parse_page p) (parse_page_size ps)) = None"
  shows "fst (GetTransactionHistoryHandler order_by s (Some uid) p ps) =
     HistoryResp 200
       \<lparr>Page_Transactions =
          take (nat (parse_page_size ps))
            (drop (nat (wrap_int64 ((parse_page p - 1) * parse_page_size ps)))
               (order_by (history_rows (db s) (Wallet_ID w)))),
        Page_Page = parse_page p,
        Page_PageSize = parse_page_size ps,
        Page_Total = int (length (history_rows (db s) (Wallet_ID w))),
        Page_TotalPages =
          (int (length (history_rows (db s) (Wallet_ID w))) + parse_page_size ps - 1)
            div parse_page_size ps\<rparr> False"
  using assms by (simp add: GetTransactionHistoryHandler_def GetCache_def Let_def)

text \<open>
  C9, as the code has it. A history request that misses the cache is answered from the
  store: when the store's answer to \<open>ORDER BY created_at desc\<close> is an order of the
  account's entries by descending creation time, the returned entries are in
  descending order of creation time, \<open>total\<close> is the number of entries in which the
  account's wallet is source or destination, and \<open>total_pages\<close> is \<open>total\<close> divided
  by the effective page size, rounded up. A request that hits the cache is answered
  with the page as it was stored.
\<close>

theorem history_page_from_store:
  assumes "wallet_by_user_id (db s) uid = Some w"
    and "rdb s (txhistory_key uid (parse_page p) (parse_page_size ps)) = None"
    and "order_by_created_at_desc (history_rows (db s) (Wallet_ID w))
           (order_by (history_rows (db s) (Wallet_ID w)))"
  shows "\<exists>h. fst (GetTransactionHistoryHandler order_by s (Some uid) p ps) = HistoryResp 200 h False \<and>
           created_at_desc (Page_Transactions h) \<and>
           Page_PageSize h = parse_page_size ps \<and>
           Page_Total h = int (length (history_rows (db s) (Wallet_ID w))) \<and>
           Page_TotalPages h = pages_needed (Page_Total h) (Page_PageSize h)"
proof -
  have ps: "0 < parse_page_size ps" using parse_page_size_bounds [of ps] by simp
  have "created_at_desc (take (nat (parse_page_size ps))
            (drop (nat (wrap_int64 ((parse_page p - 1) * parse_page_size ps)))
               (order_by (history_rows (db s) (Wallet_ID w)))))"
    using assms(3) by (simp add: order_by_created_at_desc_def created_at_desc_def)
  then show ?thesis
    by (simp add: GetTransactionHistoryHandler_miss [OF assms(1,2)] total_pages_is_ceiling [OF ps])
qed

theorem history_page_from_store_witness:
  "fst (GetTransactionHistoryHandler rev (two_deposits 5 6) (Some 1) ''1'' ''10'') =
     HistoryResp 200
       \<lparr>Page_Transactions =
          [\<lparr>Transaction_ID = 2, Transaction_FromWalletID = None, Transaction_ToWalletID = Some 1,
            Transaction_Amount = 20, Transaction_Type = ''deposit'', Transaction_CreatedAt = 6\<rparr>,
           \<lparr>Transaction_ID = 1, Transaction_FromWalletID = None, Transaction_ToWalletID = Some 1,
            Transaction_Amount = 10, Transaction_Type = ''deposit'', Transaction_CreatedAt = 5\<rparr>],
        Page_Page = 1, Page_PageSize = 10, Page_Total = 2, Page_TotalPages = 1\<rparr> False \<and>
   pages_needed 2 10 = 1"
proof -
  have w: "wallet_by_user_id (db (two_deposits 5 6)) 1 =
     Some \<lparr>Wallet_ID = 1, Wallet_UserID = 1, Wallet_Balance = 30\<rparr>"
    by code_simp
  have miss: "rdb (two_deposits 5 6) (txhistory_key 1 (parse_page ''1'') (parse_page_size ''10'')) = None"
    by code_simp
  have ord: "order_by_created_at_desc
      (history_rows (db (two_deposits 5 6))
         (Wallet_ID \<lparr>Wallet_ID = 1, Wallet_UserID = 1, Wallet_Balance = 30\<rparr>))
      (rev (history_rows (db (two_deposits 5 6))
         (Wallet_ID \<lparr>Wallet_ID = 1, Wallet_UserID = 1, Wallet_Balance = 30\<rparr>)))"
    unfolding order_by_created_at_desc_def by (rule conjI) (simp, code_simp)
  have r: "fst (GetTransactionHistoryHandler rev (two_deposits 5 6) (Some 1) ''1'' ''10'') =
     HistoryResp 200
       \<lparr>Page_Transactions =
          [\<lparr>Transaction_ID = 2, Transaction_FromWalletID = None, Transaction_ToWalletID = Some 1,
            Transaction_Amount = 20, Transaction_Type = ''deposit'', Transaction_CreatedAt = 6\<rparr>,
           \<lparr>Transaction_ID = 1, Transaction_FromWalletID = None, Transaction_ToWalletID = Some 1,
            Transaction_Amount = 10, Transaction_Type = ''deposit'', Transaction_CreatedAt = 5\<rparr>],
        Page_Page = 1, Page_PageSize = 10, Page_Total = 2, Page_TotalPages = 1\<rparr> False"
    by code_simp
  from history_page_from_store [of "two_deposits 5 6" 1 _ "''1''" "''10''" rev, OF w miss ord] r
  show ?thesis by auto
qed

text \<open>
  A request that hits the cache: the page of size 10 is cached while the account has
  no entries, a deposit adds an entry and leaves that key in place, and the same
  request is then answered from the cache with \<open>total_pages\<close> 0, while one entry
  at page size 10 makes one page.
\<close>

theorem stale_history_page_counterexample:
  "fst (run (two_wallets 0 0)
          [GetHistory (\<lambda>rows. rows) (Some 1) ''1'' ''10'', Deposit (Some 1) (Some 100) 7,
           GetHistory (\<lambda>rows. rows) (Some 1) ''1'' ''10'']) =
     [HistoryResp 200 \<lparr>Page_Transactions = [], Page_Page = 1, Page_PageSize = 10,
                        Page_Total = 0, Page_TotalPages = 0\<rparr> False,
      MessageResp 200 ''Deposit successful'',
      HistoryResp 200 \<lparr>Page_Transactions = [], Page_Page = 1, Page_PageSize = 10,
                        Page_Total = 0, Page_TotalPages = 0\<rparr> True] \<and>
   int (length (history_rows (db (snd (run (two_wallets 0 0)
          [GetHistory (\<lambda>rows. rows) (Some 1) ''1'' ''10'',
           Deposit (Some 1) (Some 100) 7]))) 1)) = 1 \<and>
   pages_needed 1 10 = 1"
proof -
  have "pages_needed 1 10 = 1" using total_pages_is_ceiling [of 10 1] by simp
  moreover have "int (length (history_rows (db (snd (run (two_wallets 0 0)
          [GetHistory (\<lambda>rows. rows) (Some 1) ''1'' ''10'',
           Deposit (Some 1) (Some 100) 7]))) 1)) = 1" by code_simp
  moreover have "fst (run (two_wallets 0 0)
          [GetHistory (\<lambda>rows. rows) (Some 1) ''1'' ''10'', Deposit (Some 1) (Some 100) 7,
           GetHistory (\<lambda>rows. rows) (Some 1) ''1'' ''10'']) =
     [HistoryResp 200 \<lparr>Page_Transactions = [], Page_Page = 1, Page_PageSize = 10,
                        Page_Total = 0, Page_TotalPages = 0\<rparr> False,
      MessageResp 200 ''Deposit successful'',
      HistoryResp 200 \<lparr>Page_Transactions = [], Page_Page = 1, Page_PageSize = 10,
                        Page_Total = 0, Page_TotalPages = 0\<rparr> True]" by code_simp
  ultimately show ?thesis by blast
qed

section \<open>Two transfers at once\<close>

lemma thread_steps_are_the_handler:
  "interleave [0, 0] (s, [Arrived u body now]) =
     (snd (TransferHandler s u body now), [Responded (fst (TransferHandler s u body now))])"
  by (cases "transfer_check s u body")
     (auto simp: TransferHandler_def split: prod.splits)

text \<open>
  C1. The first wallet holds 100 and two transfers of 60 from it arrive together.
  When each request runs to its end before the other starts, the first succeeds, the
  second is refused with \<open>Insufficient funds\<close> and the wallet is left with 40. When
  both requests pass their checks before either runs its store transaction, both
  read the balance 100, both succeed, and the wallet is left with 100 - 60 - 60: the
  debit inside the transaction is not conditional on the balance.
\<close>

theorem concurrent_transfers_overdraw:
  "snd (interleave [0, 0, 1, 1] (two_wallets 100 0, two_transfers_of_60)) =
     [Responded (MessageResp 200 ''Transfer successful''),
      Responded (ErrorResp 400 ''Insufficient funds'')] \<and>
   map Wallet_Balance (wallets (db (fst (interleave [0, 0, 1, 1]
     (two_wallets 100 0, two_transfers_of_60))))) = [40, 60] \<and>
   snd (interleave [0, 1, 0, 1] (two_wallets 100 0, two_transfers_of_60)) =
     [Responded (MessageResp 200 ''Transfer successful''),
      Responded (MessageResp 200 ''Transfer successful'')] \<and>
   map Wallet_Balance (wallets (db (fst (interleave [0, 1, 0, 1]
     (two_wallets 100 0, two_transfers_of_60))))) = [- 20, 120]"
  by code_simp

section \<open>Order of the history\<close>

lemma created_at_desc_unique:
  assumes m: "mset xs = mset ys"
    and sx: "created_at_desc xs" and sy: "created_at_desc ys"
    and d: "distinct (map Transaction_CreatedAt xs)"
  shows "xs = ys"
proof -
  let ?k = Transaction_CreatedAt
  have kx: "sorted (rev (map ?k xs))"
    using sx by (simp add: created_at_desc_def sorted_wrt_rev sorted_wrt_map flip: rev_map)
  have ky: "sorted (rev (map ?k ys))"
    using sy by (simp add: created_at_desc_def sorted_wrt_rev sorted_wrt_map flip: rev_map)
  have mm: "mset (rev (map ?k ys)) = mset (rev (map ?k xs))"
    using m by (simp add: mset_map)
  have "sort (rev (map ?k xs)) = rev (map ?k xs)"
    using kx by (rule sorted_sort_id)
  moreover have "sort (rev (map ?k xs)) = rev (map ?k ys)"
    using mm ky by (rule properties_for_sort)
  ultimately have "rev (map ?k xs) = rev (map ?k ys)" by simp
  then have e: "map ?k xs = map ?k ys" by simp
  have s: "set ys = set xs" using m by (metis mset_eq_setD)
  have "inj_on ?k (set xs)" using d by (simp add: distinct_map)
  then have "inj_on ?k (set xs \<union> set ys)" by (simp add: s)
  with e show ?thesis by (rule map_inj_on)
qed

text \<open>
  C8, as the code has it. The entries a history request returns from the store are
  entries of the account in descending order of creation time, and that is the only
  ordering key of the query: entries created in the same millisecond come in the
  order the store happens to produce. When no two entries of the account share a
  creation time, every answer of the store to the query is the same sequence, so the
  page is the same at every call.
\<close>

theorem history_order_is_creation_time_only:
  assumes w: "wallet_by_user_id (db s) uid = Some w"
    and miss: "rdb s (txhistory_key uid (parse_page p) (parse_page_size ps)) = None"
    and ord: "order_by_created_at_desc (history_rows (db s) (Wallet_ID w))
           (order_by (history_rows (db s) (Wallet_ID w)))"
  shows "created_at_desc (page_entries (fst (GetTransactionHistoryHandler order_by s (Some uid) p ps))) \<and>
         set (page_entries (fst (GetTransactionHistoryHandler order_by s (Some uid) p ps)))
           \<subseteq> set (history_rows (db s) (Wallet_ID w)) \<and>
         (distinct (map Transaction_CreatedAt (history_rows (db s) (Wallet_ID w))) \<longrightarrow>
            (\<forall>order_by'.
               order_by_created_at_desc (history_rows (db s) (Wallet_ID w))
                 (order_by' (history_rows (db s) (Wallet_ID w))) \<longrightarrow>
               fst (GetTransactionHistoryHandler order_by' s (Some uid) p ps) =
               fst (GetTransactionHistoryHandler order_by s (Some uid) p ps)))"
proof (intro conjI impI allI)
  let ?rows = "history_rows (db s) (Wallet_ID w)"
  let ?page = "\<lambda>xs. take (nat (parse_page_size ps))
            (drop (nat (wrap_int64 ((parse_page p - 1) * parse_page_size ps))) xs)"
  have pe: "page_entries (fst (GetTransactionHistoryHandler ob s (Some uid) p ps)) = ?page (ob ?rows)"
    for ob
    by (simp add: GetTransactionHistoryHandler_miss [OF w miss] page_entries_def)
  show "created_at_desc (page_entries (fst (GetTransactionHistoryHandler order_by s (Some uid) p ps)))"
    using ord by (simp add: pe order_by_created_at_desc_def created_at_desc_def)
  have "set (?page (order_by ?rows)) \<subseteq> set (order_by ?rows)"
    by (meson set_take_subset set_drop_subset subset_trans)
  moreover have "set (order_by ?rows) = set ?rows"
    using ord by (metis order_by_created_at_desc_def mset_eq_setD)
  ultimately
  show "set (page_entries (fst (GetTransactionHistoryHandler order_by s (Some uid) p ps))) \<subseteq> set ?rows"
    by (simp add: pe)
next
  fix order_by'
  let ?rows = "history_rows (db s) (Wallet_ID w)"
  assume d: "distinct (map Transaction_CreatedAt ?rows)"
    and ord': "order_by_created_at_desc ?rows (order_by' ?rows)"
  have "distinct (map Transaction_CreatedAt (order_by' ?rows))"
  proof -
    have "mset (map Transaction_CreatedAt (order_by' ?rows)) = mset (map Transaction_CreatedAt ?rows)"
      using ord' by (simp add: order_by_created_at_desc_def)
    then show ?thesis using d by (metis mset_eq_imp_distinct_iff)
  qed
  then have "order_by' ?rows = order_by ?rows"
    using ord ord' by (intro created_at_desc_unique) (simp_all add: order_by_created_at_desc_def)
  then show "fst (GetTransactionHistoryHandler order_by' s (Some uid) p ps) =
             fst (GetTransactionHistoryHandler order_by s (Some uid) p ps)"
    by (simp add: GetTransactionHistoryHandler_miss [OF w miss])
qed

theorem history_order_is_creation_time_only_witness:
  "map Transaction_ID (page_entries
     (fst (GetTransactionHistoryHandler rev (two_deposits 5 6) (Some 1) ''1'' ''10''))) = [2, 1] \<and>
   map Transaction_CreatedAt (page_entries
     (fst (GetTransactionHistoryHandler rev (two_deposits 5 6) (Some 1) ''1'' ''10''))) = [6, 5] \<and>
   created_at_desc (page_entries
     (fst (GetTransactionHistoryHandler rev (two_deposits 5 6) (Some 1) ''1'' ''10''))) \<and>
   fst (GetTransactionHistoryHandler (\<lambda>rows. rev (sort_key Transaction_CreatedAt rows))
          (two_deposits 5 6) (Some 1) ''1'' ''10'') =
   fst (GetTransactionHistoryHandler rev (two_deposits 5 6) (Some 1) ''1'' ''10'')"
proof -
  let ?w = "\<lparr>Wallet_ID = 1, Wallet_UserID = 1, Wallet_Balance = 30\<rparr>"
  let ?rows = "history_rows (db (two_deposits 5 6)) (Wallet_ID ?w)"
  have w: "wallet_by_user_id (db (two_deposits 5 6)) 1 = Some ?w"
    by code_simp
  have miss: "rdb (two_deposits 5 6) (txhistory_key 1 (parse_page ''1'') (parse_page_size ''10'')) = None"
    by code_simp
  have ord: "order_by_created_at_desc ?rows (rev ?rows)"
    unfolding order_by_created_at_desc_def by (rule conjI) (simp, code_simp)
  have ord': "order_by_created_at_desc ?rows (rev (sort_key Transaction_CreatedAt ?rows))"
    unfolding order_by_created_at_desc_def by (rule conjI) (simp, code_simp)
  have d: "distinct (map Transaction_CreatedAt ?rows)" by code_simp
  have ids: "map Transaction_ID (page_entries
     (fst (GetTransactionHistoryHandler rev (two_deposits 5 6) (Some 1) ''1'' ''10''))) = [2, 1]"
    and times: "map Transaction_CreatedAt (page_entries
     (fst (GetTransactionHistoryHandler rev (two_deposits 5 6) (Some 1) ''1'' ''10''))) = [6, 5]"
    by code_simp+
  note inst = history_order_is_creation_time_only [of "two_deposits 5 6" 1 ?w "''1''" "''10''" rev, OF w miss ord]
  note stable = inst [THEN conjunct2, THEN conjunct2, rule_format, OF d]
  have st: "fst (GetTransactionHistoryHandler (\<lambda>rows. rev (sort_key Transaction_CreatedAt rows))
          (two_deposits 5 6) (Some 1) ''1'' ''10'') =
   fst (GetTransactionHistoryHandler rev (two_deposits 5 6) (Some 1) ''1'' ''10'')"
    by (rule stable) (rule ord')
  from inst have "created_at_desc (page_entries
     (fst (GetTransactionHistoryHandler rev (two_deposits 5 6) (Some 1) ''1'' ''10'')))"
    by (rule conjunct1)
  with st ids times show ?thesis by (intro conjI)
qed

text \<open>
  Two deposits in the same millisecond. The rows in insertion order and the rows in
  reverse are both answers to \<open>ORDER BY created_at desc\<close>; the page lists the
  identifiers 1, 2 under the first and 2, 1 under the second, so neither direction of
  a tie-break by identifier holds and the two calls differ.
\<close>

theorem history_ties_counterexample:
  "order_by_created_at_desc (history_rows (db (two_deposits 5 5)) 1)
     (history_rows (db (two_deposits 5 5)) 1) \<and>
   order_by_created_at_desc (history_rows (db (two_deposits 5 5)) 1)
     (rev (history_rows (db (two_deposits 5 5)) 1)) \<and>
   map Transaction_CreatedAt (history_rows (db (two_deposits 5 5)) 1) = [5, 5] \<and>
   map Transaction_ID (page_entries
     (fst (GetTransactionHistoryHandler (\<lambda>rows. rows) (two_deposits 5 5) (Some 1) [] []))) = [1, 2] \<and>
   map Transaction_ID (page_entries
     (fst (GetTransactionHistoryHandler rev (two_deposits 5 5) (Some 1) [] []))) = [2, 1] \<and>
   \<not> created_at_desc_id_desc (page_entries
     (fst (GetTransactionHistoryHandler (\<lambda>rows. rows) (two_deposits 5 5) (Some 1) [] []))) \<and>
   \<not> created_at_desc_id_asc (page_entries
     (fst (GetTransactionHistoryHandler rev (two_deposits 5 5) (Some 1) [] [])))"
proof -
  have a: "order_by_created_at_desc (history_rows (db (two_deposits 5 5)) 1)
     (history_rows (db (two_deposits 5 5)) 1)"
    unfolding order_by_created_at_desc_def by (rule conjI) (simp, code_simp)
  have b: "order_by_created_at_desc (history_rows (db (two_deposits 5 5)) 1)
     (rev (history_rows (db (two_deposits 5 5)) 1))"
    unfolding order_by_created_at_desc_def by (rule conjI) (simp, code_simp)
  have c: "map Transaction_CreatedAt (history_rows (db (two_deposits 5 5)) 1) = [5, 5]"
    by code_simp
  have d: "map Transaction_ID (page_entries
     (fst (GetTransactionHistoryHandler (\<lambda>rows. rows) (two_deposits 5 5) (Some 1) [] []))) = [1, 2]"
    by code_simp
  have e: "map Transaction_ID (page_entries
     (fst (GetTransactionHistoryHandler rev (two_deposits 5 5) (Some 1) [] []))) = [2, 1]"
    by code_simp
  have f: "\<not> created_at_desc_id_desc (page_entries
     (fst (GetTransactionHistoryHandler (\<lambda>rows. rows) (two_deposits 5 5) (Some 1) [] [])))"
    by code_simp
  have g: "\<not> created_at_desc_id_asc (page_entries
     (fst (GetTransactionHistoryHandler rev (two_deposits 5 5) (Some 1) [] [])))"
    by code_simp
  from a b c d e f g show ?thesis by blast
qed

section \<open>What a deposit returns\<close>




section \<open>The target of a transfer and the collation\<close>

lemma user_by_username_collated_binary:
  "user_by_username_collated (=) st name = user_by_username st name"
  by (simp add: user_by_username_collated_def user_by_username_def)

lemma transfer_check_collated_binary:
  "transfer_check_collated (=) s ctx body = transfer_check s ctx body"
  by (simp add: transfer_check_collated_def transfer_check_def user_by_username_collated_binary
        cong: option.case_cong if_cong)

lemma TransferHandler_collated_binary:
  "TransferHandler_collated (=) s ctx body now = TransferHandler s ctx body now"
  by (simp add: TransferHandler_collated_def TransferHandler_def transfer_check_collated_binary)

lemma register_stores_lower_case:
  assumes "RegisterHandler s0 (Some \<lparr>Username = name, Password = pw\<rparr>) hash =
           (MessageResp 201 ''User registered successfully'', s)"
  shows "ToLower name \<in> set (map User_Username (users (db s)))"
proof -
  from assms obtain h st1 where
    cu: "create_user (ToLower name) h (db s0) = Some st1" and s: "s = s0\<lparr>db := st1\<rparr>"
    by (auto simp: RegisterHandler_def bind_register_def split: if_splits option.splits)
  from cu have "users st1 = users (db s0) @
      [\<lparr>User_ID = auto_increment (map User_ID (users (db s0))), User_Username = ToLower name,
        User_Password = h, User_Role = ''user''\<rparr>]"
    by (auto simp: create_user_def split: if_splits)
  then show ?thesis by (simp add: s)
qed

lemma transfer_check_collated_found:
  assumes "user_by_username_collated coll (db s) name = Some u"
  shows "transfer_check_collated coll s (Some a) (Some \<lparr>ToUsername = name, Amount = amount\<rparr>) \<noteq>
           Inl (ErrorResp 404 ''Target user not found'')"
  using assms
  by (simp add: transfer_check_collated_def bind_transfer_def split: option.splits)

text \<open>
  C10, as the code has it. Registration stores the name in lower case, and the transfer
  hands the requested name to the store's comparison as it is. For a requested name
  with an upper-case letter whose lower-case form is a stored name, the outcome
  follows the collation. When the collation equates the lower-case form with the
  name as requested, as a case-insensitive collation does, the lookup finds a user
  whose stored name it equates with the requested one, and the transfer is not
  answered with 404 \<open>Target user not found\<close>. When the collation equates only equal
  strings and every stored name is in lower case, the transfer is answered with 404
  \<open>Target user not found\<close> and changes nothing.
\<close>

theorem transfer_target_resolution_follows_collation:
  assumes stored: "ToLower name \<in> set (map User_Username (users (db s)))"
    and up: "list_ex is_upper name"
    and pos: "0 < amount"
  shows "(coll (ToLower name) name \<longrightarrow>
            (\<exists>u. user_by_username_collated coll (db s) name = Some u \<and>
                 coll (User_Username u) name) \<and>
            fst (TransferHandler_collated coll s (Some a)
                   (Some \<lparr>ToUsername = name, Amount = amount\<rparr>) now) \<noteq>
              ErrorResp 404 ''Target user not found'') \<and>
         (usernames_lowercase (db s) \<and> (\<forall>x y. coll x y \<longrightarrow> x = y) \<longrightarrow>
            TransferHandler_collated coll s (Some a)
              (Some \<lparr>ToUsername = name, Amount = amount\<rparr>) now =
              (ErrorResp 404 ''Target user not found'', s))"
proof (intro conjI impI)
  assume c: "coll (ToLower name) name"
  from stored obtain v where v: "v \<in> set (users (db s))" "User_Username v = ToLower name"
    by auto
  from c v(2) have "coll (User_Username v) name" by simp
  with v(1) have "filter (\<lambda>u. coll (User_Username u) name) (users (db s)) \<noteq> []"
    unfolding filter_empty_conv by blast
  then have "user_by_username_collated coll (db s) name \<noteq> None"
    by (simp add: user_by_username_collated_def First_None_iff)
  then obtain u where u: "user_by_username_collated coll (db s) name = Some u" by auto
  then have "coll (User_Username u) name"
    using First_SomeD [of User_ID "\<lambda>u. coll (User_Username u) name" "users (db s)" u]
    by (simp add: user_by_username_collated_def)
  with u show "\<exists>u. user_by_username_collated coll (db s) name = Some u \<and>
                 coll (User_Username u) name" by blast
  show "fst (TransferHandler_collated coll s (Some a)
                   (Some \<lparr>ToUsername = name, Amount = amount\<rparr>) now) \<noteq>
              ErrorResp 404 ''Target user not found''"
  proof (cases "transfer_check_collated coll s (Some a) (Some \<lparr>ToUsername = name, Amount = amount\<rparr>)")
    case (Inl e)
    with transfer_check_collated_found [OF u, of a amount]
    show ?thesis by (auto simp: TransferHandler_collated_def)
  next
    case (Inr c)
    obtain req uid tu fw tw where "c = (req, uid, tu, fw, tw)" by (cases c) auto
    with Inr show ?thesis by (simp add: TransferHandler_collated_def transfer_commit_eq)
  qed
next
  assume h: "usernames_lowercase (db s) \<and> (\<forall>x y. coll x y \<longrightarrow> x = y)"
  have ne: "name \<noteq> []" using up by auto
  have "filter (\<lambda>u. coll (User_Username u) name) (users (db s)) = []"
    using h ToLower_upper [OF up]
    by (auto simp: usernames_lowercase_def list_all_iff filter_empty_conv)
  then have "user_by_username_collated coll (db s) name = None"
    by (simp add: user_by_username_collated_def First_None_iff)
  then show "TransferHandler_collated coll s (Some a)
              (Some \<lparr>ToUsername = name, Amount = amount\<rparr>) now =
              (ErrorResp 404 ''Target user not found'', s)"
    using ne pos
    by (simp add: TransferHandler_collated_def transfer_check_collated_def bind_transfer_def)
qed

theorem transfer_target_resolution_follows_collation_witness:
  "''carol'' \<in> set (map User_Username (users (db carol_registered))) \<and>
   ci_equal ''carol'' ''Carol'' \<and>
   fst (TransferHandler_collated ci_equal carol_registered (Some 1)
          (Some \<lparr>ToUsername = ''Carol'', Amount = 10\<rparr>) 9) \<noteq>
     ErrorResp 404 ''Target user not found'' \<and>
   TransferHandler_collated (=) carol_registered (Some 1)
          (Some \<lparr>ToUsername = ''Carol'', Amount = 10\<rparr>) 9 =
     (ErrorResp 404 ''Target user not found'', carol_registered)"
proof -
  have lo: "ToLower ''Carol'' = ''carol''" by code_simp
  have stored: "ToLower ''Carol'' \<in> set (map User_Username (users (db carol_registered)))"
    by code_simp
  have up: "list_ex is_upper ''Carol''" by code_simp
  have pos: "(0::real) < 10" by simp
  have ci: "ci_equal (ToLower ''Carol'') ''Carol''" by code_simp
  have low: "usernames_lowercase (db carol_registered)" by code_simp
  have bin: "\<forall>x y::string. x = y \<longrightarrow> x = y" by simp
  note a = transfer_target_resolution_follows_collation
             [OF stored up pos, of ci_equal 1 9, THEN conjunct1, rule_format, OF ci, THEN conjunct2]
  note b = transfer_target_resolution_follows_collation
             [OF stored up pos, of "(=)" 1 9, THEN conjunct2, rule_format, OF conjI [OF low bin]]
  from a b stored ci show ?thesis by (simp only: lo simp_thms)
qed

text \<open>
  Under a collation that ignores case, which is how MySQL compares when, as here, no
  collation is named: the user registered as \<open>Carol\<close> is stored as \<open>carol\<close> and owns
  a wallet, and a transfer of 10 addressed to \<open>Carol\<close> succeeds and credits that
  wallet.
\<close>

theorem registered_casing_resolves_counterexample:
  "''carol'' \<in> set (map User_Username (users (db carol_registered))) \<and>
   fst (TransferHandler_collated ci_equal carol_registered (Some 1)
          (Some \<lparr>ToUsername = ''Carol'', Amount = 10\<rparr>) 9) =
     MessageResp 200 ''Transfer successful'' \<and>
   map Wallet_Balance (wallets (db (snd (TransferHandler_collated ci_equal carol_registered
          (Some 1) (Some \<lparr>ToUsername = ''Carol'', Amount = 10\<rparr>) 9)))) = [40, 0, 10]"
  by code_simp

end
